theory Spec2Isabelle
  imports Complex_Main
begin

section \<open>The training and evaluation loops of \<open>engine/trainer_accelerate.py\<close>\<close>

text \<open>
  \<open>Trainer.train\<close> and \<open>Trainer.val\<close> drive a model, an optimizer, a scheduler, a
  metric aggregator, an optional pruner and an optional teacher. These collaborators are
  opaque and stateful. The embedding keeps the control flow of the two procedures and makes
  their effects explicit:
  \<^item> every call on a collaborator is an \<open>event\<close>, appended to a trace in program order;
  \<^item> what a collaborator returns at a step (the model's outputs, the gradient norm, the
    learning rate, the pruner's answers) is an input of that step, bundled with the batch
    in a \<open>step_env\<close>; the theorems hold for every such input, hence for every behaviour
    of the collaborators;
  \<^item> every exception that the two procedures can raise themselves is a value of \<open>error\<close>;
    a run returns its trace together with either the error or the returned tuple.
  Scalar losses are real numbers (rounding of floats is not modelled); a tensor divided by
  the integer zero is \<open>NonFinite\<close> (torch yields inf or nan and does not raise).
  Wall-clock times, the memory gauge and the epoch number shown in log lines are left out.
\<close>

subsection \<open>Data\<close>

datatype error = AssertionError | TypeError | ZeroDivisionError | AttributeError | KeyError

text \<open>\<open>ModelOutput\<close>: \<open>outputs.loss\<close> is \<open>None\<close> when the batch has no labels.\<close>

record 't outputs =
  loss :: "real option"
  logits :: 't
  hidden_states :: "'t list"
  attentions :: "'t list"

text \<open>
  One iteration's batch and what the collaborators answer during that iteration:
  \<open>labels\<close> is \<open>batch["labels"]\<close>, \<open>student_out\<close> what \<open>model(**batch, ...)\<close> returns,
  \<open>teacher_out\<close> what \<open>teacher(**batch, ...)\<close> returns, \<open>grad_norm_ret\<close> the value of
  \<open>clip_grad_norm_\<close> or \<open>get_grad_norm\<close>, \<open>lr_now\<close> the value read from
  \<open>optimizer.param_groups[0]['lr']\<close>, and the last three fields the results of
  \<open>pruner.prune()\<close>, \<open>pruner._update_mask_conditions()\<close> and \<open>pruner.sparsity()\<close>.
\<close>

record 't step_env =
  labels :: "'t option"
  student_out :: "'t outputs"
  teacher_out :: "'t outputs"
  grad_norm_ret :: real
  lr_now :: real
  prune_ret :: "real option"
  mask_cond_ret :: bool
  sparsity_ret :: "(string \<times> real) list \<times> real"

text \<open>The options of \<open>config\<close> that the two procedures read.\<close>

record config =
  GRADIENT_ACCUMULATION_STEPS :: int
  CLIP_GRAD :: "real option"
  KD_BEGIN_LAYER :: int
  PRINT_FREQ :: int

text \<open>
  The keyword arguments of \<open>train\<close>. \<open>pruner_given\<close> and \<open>teacher_given\<close> stand for
  \<open>pruner is not None\<close> and \<open>teacher is not None\<close>; \<open>grad_enabled\<close> is the autograd mode
  of the process when \<open>train\<close> is entered.
\<close>

record 't train_args =
  is_regression :: bool
  pruner_given :: bool
  teacher_given :: bool
  kd_cls_loss :: "('t \<Rightarrow> 't \<Rightarrow> real) option"
  kd_reg_loss :: "('t \<Rightarrow> 't \<Rightarrow> real) option"
  grad_enabled :: bool

datatype fval = Finite real | NonFinite

datatype who = Student | Teacher

text \<open>\<open>outputs.logits.argmax(dim=-1)\<close> and \<open>outputs.logits.squeeze()\<close>, kept symbolic.\<close>

datatype 't prediction = Argmax 't | Squeeze 't

text \<open>The value of \<open>accelerator.gather(x)\<close>, kept symbolic.\<close>

datatype 'a gathered = Gathered 'a

record train_line =
  tl_step :: nat
  tl_len :: nat
  tl_lr :: real
  tl_loss_raw :: real
  tl_loss :: real
  tl_kd :: "(real \<times> real \<times> real) option"
  tl_grad_norm :: real

datatype log_line =
    Cur_sparsity real
  | Weight_sparsity real "(string \<times> real) list"
  | Train_step_line train_line
  | Train_epoch_line real
  | Val_step_line bool nat nat real
  | Val_epoch_line bool real

text \<open>
  \<open>Forward m g kd\<close>: a forward pass of \<open>m\<close> with autograd mode \<open>g\<close>, \<open>kd\<close> telling whether
  attentions and hidden states were requested.
\<close>

datatype 't event =
    Model_train
  | Model_eval
  | Forward who bool bool
  | Backward fval
  | Clip_grad_norm real
  | Get_grad_norm
  | Optimizer_step
  | Scheduler_step
  | Zero_grad
  | Progress_update
  | Prune
  | Update_mask_conditions
  | Sparsity
  | Gather_predictions "'t prediction"
  | Gather_references 't
  | Add_batch "'t prediction gathered" "'t gathered"
  | Metric_compute
  | Logger_info log_line
  | Empty_cache

text \<open>A run: the trace so far, and the error raised or the value produced.\<close>

type_synonym ('t, 'a) run = "'t event list \<times> (error + 'a)"

definition bind_run :: "('t, 'a) run \<Rightarrow> ('a \<Rightarrow> ('t, 'b) run) \<Rightarrow> ('t, 'b) run" where
  "bind_run m k =
     (case m of
        (es, Inl e) \<Rightarrow> (es, Inl e)
      | (es, Inr x) \<Rightarrow> (case k x of (es', r) \<Rightarrow> (es @ es', r)))"

subsection \<open>Python helpers\<close>

text \<open>\<open>xs[b:]\<close>: a negative \<open>b\<close> counts from the end, and the start is clipped to 0.\<close>

definition py_slice_from :: "int \<Rightarrow> 'a list \<Rightarrow> 'a list" where
  "py_slice_from b xs =
     (if 0 \<le> b then drop (nat b) xs else drop (length xs - nat (- b)) xs)"

text \<open>\<open>sum(xs)\<close>: a left fold from 0.\<close>

definition py_sum :: "real list \<Rightarrow> real" where
  "py_sum xs = foldl (+) 0 xs"

text \<open>\<open>sum(batch_loss) / len(batch_loss)\<close>.\<close>

definition mean_loss :: "real list \<Rightarrow> error + real" where
  "mean_loss batch_loss =
     (if length batch_loss = 0 then Inl ZeroDivisionError
      else Inr (py_sum batch_loss / real (length batch_loss)))"

text \<open>\<open>if config.TRAIN.CLIP_GRAD:\<close> is false for \<open>None\<close> and for zero.\<close>

definition clip_configured :: "config \<Rightarrow> bool" where
  "clip_configured c = (case CLIP_GRAD c of None \<Rightarrow> False | Some m \<Rightarrow> m \<noteq> 0)"

subsection \<open>One training step\<close>

text \<open>
  A forward pass runs in the autograd mode that is current where it is called.
  \<open>with torch.no_grad():\<close> runs its body with the mode switched off.
\<close>

definition forward :: "who \<Rightarrow> bool \<Rightarrow> bool \<Rightarrow> 't event list" where
  "forward m kd mode = [Forward m mode kd]"

definition no_grad :: "(bool \<Rightarrow> 'a) \<Rightarrow> 'a" where
  "no_grad body = body False"

text \<open>
  Lines 43 to 46 and 49 to 52: \<open>acc = 0.\<close>, then \<open>acc = acc + kd_reg_loss(x, y)\<close> for each
  pair of the zip.
\<close>

definition layer_loss_loop :: "('t \<Rightarrow> 't \<Rightarrow> real) \<Rightarrow> ('t \<times> 't) list \<Rightarrow> real" where
  "layer_loss_loop g ps = foldl (\<lambda>acc (x, y). acc + g x y) 0 ps"

text \<open>
  What lines 22 to 59 leave behind: \<open>loss_raw\<close>, the three sub-losses in KD mode, and
  whether \<open>hs_loss\<close> and \<open>attn_loss\<close> are tensors (each stays the float \<open>0.\<close> when its zip
  is empty, and a float has no \<open>item()\<close>).
\<close>

record composed =
  loss_raw :: real
  kd_parts :: "(real \<times> real \<times> real) option"
  parts_are_tensors :: bool

definition forward_and_loss ::
  "'t train_args \<Rightarrow> config \<Rightarrow> 't step_env \<Rightarrow> ('t, composed) run" where
  "forward_and_loss a c io =
     (if teacher_given a then
        (case kd_cls_loss a of
           None \<Rightarrow> ([], Inl AssertionError)
         | Some f \<Rightarrow>
            (case kd_reg_loss a of
               None \<Rightarrow> ([], Inl AssertionError)
             | Some g \<Rightarrow>
                (let b = KD_BEGIN_LAYER c;
                     s = student_out io;
                     t = teacher_out io;
                     logit_loss = f (logits s) (logits t);
                     hs_pairs = zip (py_slice_from b (hidden_states s))
                                    (py_slice_from b (hidden_states t));
                     hs_loss = layer_loss_loop g hs_pairs;
                     attn_pairs = zip (py_slice_from b (attentions s))
                                      (py_slice_from b (attentions t));
                     attn_loss = layer_loss_loop g attn_pairs
                 in (forward Student True (grad_enabled a) @ no_grad (forward Teacher True),
                     Inr \<lparr>loss_raw = logit_loss + hs_loss + attn_loss,
                          kd_parts = Some (logit_loss, hs_loss, attn_loss),
                          parts_are_tensors = (hs_pairs \<noteq> [] \<and> attn_pairs \<noteq> [])\<rparr>))))
      else
        (case loss (student_out io) of
           None \<Rightarrow> (forward Student False (grad_enabled a), Inl TypeError)
         | Some l \<Rightarrow>
            (forward Student False (grad_enabled a),
             Inr \<lparr>loss_raw = l, kd_parts = None, parts_are_tensors = True\<rparr>)))"

text \<open>
  Line 79, \<open>not (step + 1) % w or step == len(dataloader) - 1\<close>: the remainder raises for
  \<open>w = 0\<close>; Python's \<open>%\<close> on integers is the floored remainder, as \<open>mod\<close> on \<open>int\<close> is.
\<close>

definition should_update :: "config \<Rightarrow> nat \<Rightarrow> nat \<Rightarrow> error + bool" where
  "should_update c n step =
     (let w = GRADIENT_ACCUMULATION_STEPS c
      in if w = 0 then Inl ZeroDivisionError
         else Inr ((int step + 1) mod w = 0 \<or> int step = int n - 1))"

text \<open>Lines 69 to 73.\<close>

definition grad_norm_block :: "config \<Rightarrow> 't event list" where
  "grad_norm_block c =
     (case CLIP_GRAD c of
        None \<Rightarrow> [Get_grad_norm]
      | Some m \<Rightarrow> if m \<noteq> 0 then [Clip_grad_norm m] else [Get_grad_norm])"

text \<open>
  \<open>loss_raw / w\<close> on a tensor: dividing by the integer zero gives inf or nan, no exception.
\<close>

definition tensor_div :: "real \<Rightarrow> int \<Rightarrow> fval" where
  "tensor_div x w = (if w = 0 then NonFinite else Finite (x / real_of_int w))"

text \<open>
  Lines 62 to 79: scale, record, backward, clip or measure, then decide. The value is the
  float appended to \<open>batch_loss\<close> and the decision of line 79. For \<open>w = 0\<close> lines 62 to 76
  run with a non-finite loss and line 79 raises, so no float reaches \<open>batch_loss\<close>.
\<close>

definition accumulate_block :: "config \<Rightarrow> nat \<Rightarrow> nat \<Rightarrow> real \<Rightarrow> ('t, real \<times> bool) run" where
  "accumulate_block c n step raw =
     (let w = GRADIENT_ACCUMULATION_STEPS c
      in (Backward (tensor_div raw w) # grad_norm_block c,
          case should_update c n step of
            Inl e \<Rightarrow> Inl e
          | Inr upd \<Rightarrow> Inr (raw / real_of_int w, upd)))"

text \<open>Lines 87 to 99.\<close>

definition pruner_block :: "'t train_args \<Rightarrow> 't step_env \<Rightarrow> 't event list" where
  "pruner_block a io =
     (if pruner_given a then
        [Prune]
        @ (case prune_ret io of None \<Rightarrow> [] | Some cur \<Rightarrow> [Logger_info (Cur_sparsity cur)])
        @ [Update_mask_conditions]
        @ (if mask_cond_ret io
           then [Sparsity,
                 Logger_info (Weight_sparsity (snd (sparsity_ret io)) (fst (sparsity_ret io)))]
           else [])
      else [])"

text \<open>Lines 80 to 99.\<close>

definition update_block :: "'t train_args \<Rightarrow> 't step_env \<Rightarrow> 't event list" where
  "update_block a io =
     [Optimizer_step, Scheduler_step, Zero_grad, Progress_update] @ pruner_block a io"

text \<open>\<open>outputs.logits.argmax(dim=-1) if not is_regression else outputs.logits.squeeze()\<close>.\<close>

definition predictions_of :: "bool \<Rightarrow> 't outputs \<Rightarrow> 't prediction" where
  "predictions_of is_reg out = (if \<not> is_reg then Argmax (logits out) else Squeeze (logits out))"

text \<open>
  Lines 104 to 109 (and 164 to 169): the arguments are evaluated in order, so the
  predictions are gathered before \<open>batch["labels"]\<close> can raise.
\<close>

definition metric_block :: "bool \<Rightarrow> 't step_env \<Rightarrow> ('t, unit) run" where
  "metric_block is_reg io =
     (let p = predictions_of is_reg (student_out io)
      in case labels io of
           None \<Rightarrow> ([Gather_predictions p], Inl KeyError)
         | Some l \<Rightarrow>
             ([Gather_predictions p, Gather_references l,
               Add_batch (Gathered p) (Gathered l)], Inr ()))"

text \<open>Lines 115 to 131: \<open>step % PRINT_FREQ\<close> raises for a zero stride.\<close>

definition train_telemetry ::
  "config \<Rightarrow> nat \<Rightarrow> nat \<Rightarrow> 't step_env \<Rightarrow> composed \<Rightarrow> real \<Rightarrow> ('t, unit) run" where
  "train_telemetry c n step io cl loss_item =
     (if PRINT_FREQ c = 0 then ([], Inl ZeroDivisionError)
      else if int step mod PRINT_FREQ c = 0 then
        (if \<not> parts_are_tensors cl then ([], Inl AttributeError)
         else ([Logger_info (Train_step_line
                  \<lparr>tl_step = step, tl_len = n, tl_lr = lr_now io,
                   tl_loss_raw = loss_raw cl, tl_loss = loss_item,
                   tl_kd = kd_parts cl, tl_grad_norm = grad_norm_ret io\<rparr>)], Inr ()))
      else ([], Inr ()))"

text \<open>
  The body of the loop of \<open>train\<close> for the batch at index \<open>step\<close> of \<open>n\<close>; its value is what
  the iteration appends to \<open>batch_loss\<close> and to \<open>step_lr\<close>.
\<close>

definition train_step ::
  "'t train_args \<Rightarrow> config \<Rightarrow> nat \<Rightarrow> nat \<Rightarrow> 't step_env \<Rightarrow> ('t, real \<times> real) run" where
  "train_step a c n step io =
     bind_run (forward_and_loss a c io) (\<lambda>cl.
     bind_run (accumulate_block c n step (loss_raw cl)) (\<lambda>(loss_item, upd).
     bind_run (if upd then (update_block a io, Inr ()) else ([], Inr ())) (\<lambda>_.
     bind_run (metric_block (is_regression a) io) (\<lambda>_.
     bind_run (train_telemetry c n step io cl loss_item) (\<lambda>_.
     ([], Inr (loss_item, lr_now io)))))))"

subsection \<open>The epoch\<close>

text \<open>
  \<open>for step, batch in enumerate(dataloader)\<close>, with the two lists the loop appends to.
  An exception ends the loop with the trace it has produced.
\<close>

fun train_loop ::
  "'t train_args \<Rightarrow> config \<Rightarrow> nat \<Rightarrow> nat \<Rightarrow> 't step_env list \<Rightarrow> real list \<Rightarrow> real list
   \<Rightarrow> ('t, real list \<times> real list) run" where
  "train_loop a c n step [] batch_loss step_lr = ([], Inr (batch_loss, step_lr))"
| "train_loop a c n step (io # ios) batch_loss step_lr =
     bind_run (train_step a c n step io) (\<lambda>(l, r).
       train_loop a c n (Suc step) ios (batch_loss @ [l]) (step_lr @ [r]))"

text \<open>The tuple \<open>train\<close> returns; \<open>metric\<close> is what \<open>metric_computor.compute()\<close> answers.\<close>

record 'r train_result =
  train_loss :: real
  train_results :: 'r
  step_lrs :: "real list"

text \<open>Lines 141 to 147.\<close>

definition train_exit :: "'r \<Rightarrow> real list \<times> real list \<Rightarrow> ('t, 'r train_result) run" where
  "train_exit metric acc =
     (case mean_loss (fst acc) of
        Inl e \<Rightarrow> ([], Inl e)
      | Inr m \<Rightarrow>
          ([Metric_compute, Logger_info (Train_epoch_line m), Empty_cache],
           Inr \<lparr>train_loss = m, train_results = metric, step_lrs = snd acc\<rparr>))"

definition train ::
  "'t train_args \<Rightarrow> config \<Rightarrow> 'r \<Rightarrow> 't step_env list \<Rightarrow> ('t, 'r train_result) run" where
  "train a c metric dataloader =
     bind_run ([Model_train], Inr ()) (\<lambda>_.
     bind_run (train_loop a c (length dataloader) 0 dataloader [] []) (\<lambda>acc.
     train_exit metric acc))"

subsection \<open>Validation\<close>

text \<open>Lines 158 to 183: \<open>loss.item()\<close> raises when the model returned no loss.\<close>

definition val_step ::
  "config \<Rightarrow> bool \<Rightarrow> bool \<Rightarrow> nat \<Rightarrow> nat \<Rightarrow> 't step_env \<Rightarrow> ('t, real) run" where
  "val_step c is_reg teacher_mode n step io =
     (case loss (student_out io) of
        None \<Rightarrow> (no_grad (forward Student False), Inl AttributeError)
      | Some l \<Rightarrow>
         bind_run (no_grad (forward Student False), Inr ()) (\<lambda>_.
         bind_run (metric_block is_reg io) (\<lambda>_.
         bind_run (if PRINT_FREQ c = 0 then ([], Inl ZeroDivisionError)
                   else if int step mod PRINT_FREQ c = 0
                   then ([Logger_info (Val_step_line teacher_mode step n l)], Inr ())
                   else ([], Inr ())) (\<lambda>_.
         ([], Inr l)))))"

fun val_loop ::
  "config \<Rightarrow> bool \<Rightarrow> bool \<Rightarrow> nat \<Rightarrow> nat \<Rightarrow> 't step_env list \<Rightarrow> real list
   \<Rightarrow> ('t, real list) run" where
  "val_loop c is_reg tm n step [] batch_loss = ([], Inr batch_loss)"
| "val_loop c is_reg tm n step (io # ios) batch_loss =
     bind_run (val_step c is_reg tm n step io) (\<lambda>l.
       val_loop c is_reg tm n (Suc step) ios (batch_loss @ [l]))"

text \<open>Lines 188 to 198.\<close>

definition val_exit :: "bool \<Rightarrow> 'r \<Rightarrow> real list \<Rightarrow> ('t, real \<times> 'r) run" where
  "val_exit teacher_mode metric batch_loss =
     (case mean_loss batch_loss of
        Inl e \<Rightarrow> ([], Inl e)
      | Inr m \<Rightarrow>
          ([Metric_compute, Logger_info (Val_epoch_line teacher_mode m), Empty_cache],
           Inr (m, metric)))"

definition val ::
  "config \<Rightarrow> bool \<Rightarrow> bool \<Rightarrow> 'r \<Rightarrow> 't step_env list \<Rightarrow> ('t, real \<times> 'r) run" where
  "val c is_reg teacher_mode metric dataloader =
     bind_run ([Model_eval], Inr ()) (\<lambda>_.
     bind_run (val_loop c is_reg teacher_mode (length dataloader) 0 dataloader []) (\<lambda>bl.
     val_exit teacher_mode metric bl))"

subsection \<open>Reading a trace\<close>

fun is_forward :: "'t event \<Rightarrow> bool" where
  "is_forward (Forward _ _ _) = True"
| "is_forward _ = False"

fun is_log :: "'t event \<Rightarrow> bool" where
  "is_log (Logger_info _) = True"
| "is_log _ = False"


fun is_backward :: "'t event \<Rightarrow> bool" where
  "is_backward (Backward _) = True"
| "is_backward _ = False"

fun is_grad_norm_op :: "'t event \<Rightarrow> bool" where
  "is_grad_norm_op (Clip_grad_norm _) = True"
| "is_grad_norm_op Get_grad_norm = True"
| "is_grad_norm_op _ = False"

fun is_pruner_call :: "'t event \<Rightarrow> bool" where
  "is_pruner_call Prune = True"
| "is_pruner_call Update_mask_conditions = True"
| "is_pruner_call Sparsity = True"
| "is_pruner_call _ = False"

fun is_metric_call :: "'t event \<Rightarrow> bool" where
  "is_metric_call (Gather_predictions _) = True"
| "is_metric_call (Gather_references _) = True"
| "is_metric_call (Add_batch _ _) = True"
| "is_metric_call _ = False"

text \<open>The four calls of lines 80 to 85.\<close>

definition update_calls :: "'t event list" where
  "update_calls = [Optimizer_step, Scheduler_step, Zero_grad, Progress_update]"

text \<open>The trace of the iteration at index \<open>step\<close> of an epoch over \<open>dataloader\<close>.\<close>

definition step_trace :: "'t train_args \<Rightarrow> config \<Rightarrow> 't step_env list \<Rightarrow> nat \<Rightarrow> 't event list" where
  "step_trace a c dataloader step =
     fst (train_step a c (length dataloader) step (dataloader ! step))"



text \<open>
  The autograd engine is outside the repository. Its contract, as far as the teacher is
  concerned: a teacher forward pass with tracking enabled retains an activation graph that
  reaches the teacher's parameters; a backward pass deposits gradients in the teacher's
  parameters when such a graph is retained, and frees the graph. \<open>teacher_grad_writes\<close>
  counts the backward passes that reached the teacher's parameters.
\<close>

record autograd =
  teacher_graph :: bool
  teacher_grad_writes :: nat

fun autograd_event :: "autograd \<Rightarrow> 't event \<Rightarrow> autograd" where
  "autograd_event st (Forward Teacher g kd) = st\<lparr>teacher_graph := teacher_graph st \<or> g\<rparr>"
| "autograd_event st (Backward l) =
     st\<lparr>teacher_graph := False,
        teacher_grad_writes := teacher_grad_writes st + (if teacher_graph st then 1 else 0)\<rparr>"
| "autograd_event st _ = st"

definition autograd_replay :: "'t event list \<Rightarrow> autograd" where
  "autograd_replay es = foldl autograd_event \<lparr>teacher_graph = False, teacher_grad_writes = 0\<rparr> es"

text \<open>
  What a step emits after the gradient norm, once its loss is composed: the update block when
  line 79 decides so, the metric calls, the log line.
\<close>

definition step_rest ::
  "'t train_args \<Rightarrow> config \<Rightarrow> nat \<Rightarrow> nat \<Rightarrow> 't step_env \<Rightarrow> composed \<Rightarrow> 't event list" where
  "step_rest a c n s io cl =
     (case should_update c n s of
        Inl e \<Rightarrow> []
      | Inr u \<Rightarrow>
          (if u then update_block a io else [])
          @ fst (metric_block (is_regression a) io)
          @ (case labels io of
               None \<Rightarrow> []
             | Some l \<Rightarrow>
                 fst (train_telemetry c n s io cl
                       (loss_raw cl / real_of_int (GRADIENT_ACCUMULATION_STEPS c)))))"

subsection \<open>Concrete runs\<close>

text \<open>
  An epoch of ten batches with window 4, no clipping, a log line every five steps, plain
  mode, tensors as integers; the loss of batch \<open>i\<close> is \<open>i\<close>.
\<close>

definition ex_config :: config where
  "ex_config = \<lparr>GRADIENT_ACCUMULATION_STEPS = 4, CLIP_GRAD = None, KD_BEGIN_LAYER = 1,
                 PRINT_FREQ = 5\<rparr>"

definition ex_args :: "int train_args" where
  "ex_args = \<lparr>is_regression = False, pruner_given = False, teacher_given = False,
               kd_cls_loss = None, kd_reg_loss = None, grad_enabled = True\<rparr>"

definition ex_env :: "real \<Rightarrow> int step_env" where
  "ex_env x =
     \<lparr>labels = Some 1,
      student_out = \<lparr>loss = Some x, logits = 3, hidden_states = [1, 2, 3], attentions = [0, 5]\<rparr>,
      teacher_out = \<lparr>loss = None, logits = 1, hidden_states = [1, 1, 1], attentions = [0, 2]\<rparr>,
      grad_norm_ret = 1, lr_now = 1 / 10, prune_ret = Some (1 / 2), mask_cond_ret = True,
      sparsity_ret = ([], 1 / 2)\<rparr>"

definition ex_loader :: "int step_env list" where
  "ex_loader = map ex_env [1, 2, 3, 4, 5, 6, 7, 8, 9, 10]"

text \<open>The same with a teacher, the two sub-losses and a pruner.\<close>

definition ex_kd_args :: "int train_args" where
  "ex_kd_args = \<lparr>is_regression = False, pruner_given = True, teacher_given = True,
                  kd_cls_loss = Some (\<lambda>x y. real_of_int \<bar>x - y\<bar>),
                  kd_reg_loss = Some (\<lambda>x y. real_of_int ((x - y) * (x - y))),
                  grad_enabled = True\<rparr>"

text \<open>
  A batch on which student and teacher differ in every layer, layer 0 included: the logit
  loss is 2, the hidden state losses 9, 1, 4 and the attention losses 9, 9.
\<close>

definition ex_kd_env :: "int step_env" where
  "ex_kd_env =
     \<lparr>labels = Some 1,
      student_out = \<lparr>loss = Some 7, logits = 3, hidden_states = [4, 2, 3], attentions = [3, 5]\<rparr>,
      teacher_out = \<lparr>loss = None, logits = 1, hidden_states = [1, 1, 1], attentions = [0, 2]\<rparr>,
      grad_norm_ret = 1, lr_now = 1 / 10, prune_ret = Some (1 / 2), mask_cond_ret = True,
      sparsity_ret = ([], 1 / 2)\<rparr>"

text \<open>The teacher without its sub-losses.\<close>

definition ex_bad_kd_args :: "int train_args" where
  "ex_bad_kd_args = \<lparr>is_regression = False, pruner_given = False, teacher_given = True,
                      kd_cls_loss = None, kd_reg_loss = None, grad_enabled = True\<rparr>"

section \<open>Properties\<close>

subsection \<open>Runs and traces\<close>

lemma bind_run_Inl [simp]: "bind_run (es, Inl e) k = (es, Inl e)"
  by (simp add: bind_run_def)

lemma bind_run_Inr [simp]: "bind_run (es, Inr x) k = (es @ fst (k x), snd (k x))"
  by (simp add: bind_run_def split: prod.splits)

lemma fst_bind_run:
  "fst (bind_run m k) = fst m @ (case snd m of Inl e \<Rightarrow> [] | Inr x \<Rightarrow> fst (k x))"
  by (cases m; cases "snd m") auto

lemma snd_bind_run:
  "snd (bind_run m k) = (case snd m of Inl e \<Rightarrow> Inl e | Inr x \<Rightarrow> snd (k x))"
  by (cases m; cases "snd m") auto

lemma bind_run_success:
  assumes "snd (bind_run m k) = Inr y"
  obtains es x where "m = (es, Inr x)" and "snd (k x) = Inr y"
  using assms by (cases m; cases "snd m") auto

lemma py_sum_sum_list: "py_sum xs = sum_list xs"
proof -
  have "foldl (+) x xs = x + sum_list xs" for x :: real
    by (induction xs arbitrary: x) simp_all
  then show ?thesis by (simp add: py_sum_def)
qed


text \<open>For an index that is not negative, \<open>xs[b:]\<close> is the list from position \<open>b\<close> on.\<close>

lemma py_slice_from_nonneg:
  assumes "0 \<le> b"
  shows "py_slice_from b xs = map (\<lambda>i. xs ! i) [nat b..<length xs]"
proof -
  have "drop (nat b) xs = drop (nat b) (map (\<lambda>i. xs ! i) [0..<length xs])"
    by (simp only: map_nth)
  also have "\<dots> = map (\<lambda>i. xs ! i) [nat b..<length xs]"
    by (simp add: drop_map)
  finally show ?thesis using assms by (simp add: py_slice_from_def)
qed

lemma fwd_cases:
  obtains (fail) fe e where "forward_and_loss a c io = (fe, Inl e)"
  | (ok) fe cl where "forward_and_loss a c io = (fe, Inr cl)"
  by (cases "forward_and_loss a c io"; cases "snd (forward_and_loss a c io)") auto

lemma snd_metric_block:
  "snd (metric_block r io) = (case labels io of None \<Rightarrow> Inl KeyError | Some l \<Rightarrow> Inr ())"
  by (simp add: metric_block_def Let_def split: option.splits)

lemma train_step_fail:
  "forward_and_loss a c io = (fe, Inl e) \<Longrightarrow> train_step a c n s io = (fe, Inl e)"
  by (simp add: train_step_def)

lemma train_step_trace:
  assumes "forward_and_loss a c io = (fe, Inr cl)"
  shows "fst (train_step a c n s io) =
           fe @ Backward (tensor_div (loss_raw cl) (GRADIENT_ACCUMULATION_STEPS c))
              # grad_norm_block c @ step_rest a c n s io cl"
  using assms
  by (cases "should_update c n s"; cases "labels io")
     (simp_all add: train_step_def accumulate_block_def step_rest_def Let_def snd_metric_block
        fst_bind_run snd_bind_run split: sum.splits)

lemma train_step_outcome:
  assumes "forward_and_loss a c io = (fe, Inr cl)"
  shows "snd (train_step a c n s io) =
           (case should_update c n s of
              Inl e \<Rightarrow> Inl e
            | Inr u \<Rightarrow>
               (case labels io of
                  None \<Rightarrow> Inl KeyError
                | Some l \<Rightarrow>
                   (case snd (train_telemetry c n s io cl
                               (loss_raw cl / real_of_int (GRADIENT_ACCUMULATION_STEPS c))) of
                      Inl e \<Rightarrow> Inl e
                    | Inr _ \<Rightarrow>
                        Inr (loss_raw cl / real_of_int (GRADIENT_ACCUMULATION_STEPS c),
                             lr_now io))))"
  using assms
  by (cases "should_update c n s"; cases "labels io";
      cases "snd (train_telemetry c n s io cl
                               (loss_raw cl / real_of_int (GRADIENT_ACCUMULATION_STEPS c)))")
     (simp_all add: train_step_def accumulate_block_def Let_def snd_metric_block snd_bind_run)

lemma train_loop_success:
  assumes "snd (train_loop a c n s ios bl lrs) = Inr (bl', lrs')"
  shows "fst (train_loop a c n s ios bl lrs) =
           concat (map (\<lambda>j. fst (train_step a c n (s + j) (ios ! j))) [0..<length ios])
         \<and> (\<exists>ls rs. length ls = length ios \<and> length rs = length ios
               \<and> bl' = bl @ ls \<and> lrs' = lrs @ rs
               \<and> (\<forall>j<length ios.
                     snd (train_step a c n (s + j) (ios ! j)) = Inr (ls ! j, rs ! j)))"
  using assms
proof (induction ios arbitrary: s bl lrs)
  case Nil
  then show ?case by simp
next
  case (Cons io ios)
  from Cons.prems obtain es v where
    st: "train_step a c n s io = (es, Inr v)" and
    rest: "snd (case v of (l, r) \<Rightarrow> train_loop a c n (Suc s) ios (bl @ [l]) (lrs @ [r]))
             = Inr (bl', lrs')"
    by (auto elim: bind_run_success)
  obtain l r where v: "v = (l, r)" by (cases v)
  from rest v have rest': "snd (train_loop a c n (Suc s) ios (bl @ [l]) (lrs @ [r])) = Inr (bl', lrs')"
    by simp
  from Cons.IH[OF rest'] obtain ls rs where
    tr: "fst (train_loop a c n (Suc s) ios (bl @ [l]) (lrs @ [r])) =
           concat (map (\<lambda>j. fst (train_step a c n (Suc s + j) (ios ! j))) [0..<length ios])" and
    len: "length ls = length ios" "length rs = length ios" and
    acc: "bl' = (bl @ [l]) @ ls" "lrs' = (lrs @ [r]) @ rs" and
    steps: "\<forall>j<length ios. snd (train_step a c n (Suc s + j) (ios ! j)) = Inr (ls ! j, rs ! j)"
    by blast
  have upt: "[0..<length (io # ios)] = 0 # map Suc [0..<length ios]"
    by (simp add: upt_conv_Cons map_Suc_upt del: upt_Suc)
  have "fst (train_loop a c n s (io # ios) bl lrs) =
          concat (map (\<lambda>j. fst (train_step a c n (s + j) ((io # ios) ! j))) [0..<length (io # ios)])"
    unfolding upt using st v tr by (simp add: comp_def)
  moreover have "\<forall>j<length (io # ios).
        snd (train_step a c n (s + j) ((io # ios) ! j)) = Inr ((l # ls) ! j, (r # rs) ! j)"
  proof (intro allI impI)
    fix j assume "j < length (io # ios)"
    then show "snd (train_step a c n (s + j) ((io # ios) ! j)) = Inr ((l # ls) ! j, (r # rs) ! j)"
      using st v steps by (cases j) auto
  qed
  ultimately show ?case
    using len acc by (intro conjI exI[of _ "l # ls"] exI[of _ "r # rs"]) simp_all
qed

lemma step_trace_fun:
  "step_trace a c dl = (\<lambda>j. fst (train_step a c (length dl) j (dl ! j)))"
  by (rule ext) (simp add: step_trace_def)

lemma train_success:
  fixes a :: "'t train_args" and m :: 'r
  assumes "snd (train a c m dl) = Inr r"
  shows "dl \<noteq> []"
    and "fst (train a c m dl) =
           Model_train # concat (map (step_trace a c dl) [0..<length dl])
           @ [Metric_compute, Logger_info (Train_epoch_line (train_loss r)), Empty_cache]"
    and "\<exists>ls rs. length ls = length dl \<and> length rs = length dl
            \<and> snd (train_loop a c (length dl) 0 dl [] []) = Inr (ls, rs)
            \<and> train_loss r = sum_list ls / real (length ls)
            \<and> step_lrs r = rs \<and> train_results r = m
            \<and> (\<forall>j<length dl. snd (train_step a c (length dl) j (dl ! j)) = Inr (ls ! j, rs ! j))"
proof -
  from assms obtain acc where
    lp: "snd (train_loop a c (length dl) 0 dl [] []) = Inr acc" and
    ex: "snd (train_exit m acc :: ('t, 'r train_result) run) = Inr r"
    by (auto simp: train_def snd_bind_run split: sum.splits)
  obtain bl lrs where acc: "acc = (bl, lrs)" by (cases acc)
  from train_loop_success[OF lp[unfolded acc]] obtain ls rs where
    tr: "fst (train_loop a c (length dl) 0 dl [] []) =
           concat (map (\<lambda>j. fst (train_step a c (length dl) (0 + j) (dl ! j))) [0..<length dl])" and
    len: "length ls = length dl" "length rs = length dl" and
    eqs: "bl = [] @ ls" "lrs = [] @ rs" and
    steps: "\<forall>j<length dl. snd (train_step a c (length dl) (0 + j) (dl ! j)) = Inr (ls ! j, rs ! j)"
    by blast
  from ex acc have bl_ne: "bl \<noteq> []" and
    r: "r = \<lparr>train_loss = py_sum bl / real (length bl), train_results = m, step_lrs = lrs\<rparr>"
    by (auto simp: train_exit_def mean_loss_def split: if_splits)
  from bl_ne eqs len show "dl \<noteq> []" by auto
  have exit_tr: "fst (train_exit m acc :: ('t, 'r train_result) run) =
      [Metric_compute, Logger_info (Train_epoch_line (train_loss r)), Empty_cache]"
    using bl_ne acc r by (simp add: train_exit_def mean_loss_def)
  show "fst (train a c m dl) =
           Model_train # concat (map (step_trace a c dl) [0..<length dl])
           @ [Metric_compute, Logger_info (Train_epoch_line (train_loss r)), Empty_cache]"
    using lp tr exit_tr step_trace_fun[of a c dl] by (simp add: train_def fst_bind_run)
  show "\<exists>ls rs. length ls = length dl \<and> length rs = length dl
            \<and> snd (train_loop a c (length dl) 0 dl [] []) = Inr (ls, rs)
            \<and> train_loss r = sum_list ls / real (length ls)
            \<and> step_lrs r = rs \<and> train_results r = m
            \<and> (\<forall>j<length dl. snd (train_step a c (length dl) j (dl ! j)) = Inr (ls ! j, rs ! j))"
    using len eqs steps r lp acc by (intro exI[of _ ls] exI[of _ rs]) (simp add: py_sum_sum_list)
qed

subsection \<open>What each block can emit\<close>

lemma forward_events:
  "e \<in> set (fst (forward_and_loss a c io)) \<Longrightarrow> is_forward e"
  by (auto simp: forward_and_loss_def forward_def no_grad_def Let_def split: option.splits if_splits)

lemma grad_norm_events: "e \<in> set (grad_norm_block c) \<Longrightarrow> is_grad_norm_op e"
  by (auto simp: grad_norm_block_def split: option.splits if_splits)

lemma pruner_events: "e \<in> set (pruner_block a io) \<Longrightarrow> is_pruner_call e \<or> is_log e"
  by (auto simp: pruner_block_def split: option.splits if_splits)

lemma metric_events: "e \<in> set (fst (metric_block r io)) \<Longrightarrow> is_metric_call e"
  by (auto simp: metric_block_def Let_def split: option.splits)

lemma telemetry_events: "e \<in> set (fst (train_telemetry c n s io cl x)) \<Longrightarrow> is_log e"
  by (auto simp: train_telemetry_def split: if_splits)

lemma count_list_update_calls:
  assumes "e \<in> set update_calls"
  shows "count_list update_calls e = 1"
  using assms by (auto simp: update_calls_def)

lemma update_call_kind:
  assumes "e \<in> set update_calls"
  shows "\<not> is_forward e" "\<not> is_backward e" "\<not> is_grad_norm_op e" "\<not> is_pruner_call e"
    "\<not> is_log e" "\<not> is_metric_call e"
  using assms by (auto simp: update_calls_def)

lemma count_update_call_step:
  assumes e: "e \<in> set update_calls"
  shows "count_list (fst (train_step a c n s io)) e =
           (if \<not> isl (snd (forward_and_loss a c io)) \<and> should_update c n s = Inr True
            then 1 else 0)"
proof (cases rule: fwd_cases[of a c io])
  case (fail fe ee)
  have "e \<notin> set fe" using forward_events[of e a c io] update_call_kind[OF e] fail by auto
  with fail show ?thesis by (simp add: train_step_fail)
next
  case (ok fe cl)
  have 1: "count_list fe e = 0"
    using forward_events[of e a c io] update_call_kind[OF e] ok by (auto simp: count_list_0_iff)
  have 2: "count_list (grad_norm_block c) e = 0"
    using grad_norm_events[of e c] update_call_kind[OF e] by (auto simp: count_list_0_iff)
  have 3: "count_list (pruner_block a io) e = 0"
    using pruner_events[of e a io] update_call_kind[OF e] by (auto simp: count_list_0_iff)
  have 4: "count_list (fst (metric_block r io)) e = 0" for r
    using metric_events[of e r io] update_call_kind[OF e] by (auto simp: count_list_0_iff)
  have 5: "count_list (fst (train_telemetry c n s io cl x)) e = 0" for x
    using telemetry_events[of e c n s io cl x] update_call_kind[OF e] by (auto simp: count_list_0_iff)
  have 6: "Backward v \<noteq> e" for v using update_call_kind(2)[OF e] by auto
  show ?thesis
    using ok 1 2 3 4 5 6 count_list_update_calls[OF e]
    by (simp add: train_step_trace step_rest_def update_block_def update_calls_def[symmetric]
        split: sum.splits option.splits)
qed

subsection \<open>Counting the update steps of an epoch\<close>

lemma count_multiples:
  fixes k :: nat
  assumes "0 < k"
  shows "length (filter (\<lambda>s. Suc s mod k = 0) [0..<m]) = m div k"
  by (induction m) (simp_all add: div_Suc)

lemma ceiling_Suc_div:
  fixes k :: nat
  assumes "0 < k"
  shows "nat \<lceil>real (Suc m) / real k\<rceil> = Suc (m div k)"
proof -
  have m: "m = k * (m div k) + m mod k" by simp
  have lt: "m mod k < k" using assms by simp
  have "real (m div k) < real (Suc m) / real k"
  proof -
    have "real (k * (m div k)) < real (Suc m)" using m by linarith
    then show ?thesis using assms by (simp add: pos_less_divide_eq mult.commute)
  qed
  moreover have "real (Suc m) / real k \<le> real (m div k) + 1"
  proof -
    have "Suc m \<le> k * (m div k) + k" using m lt by linarith
    then have "real (Suc m) \<le> real (k * (m div k) + k)" by (rule of_nat_mono)
    then show ?thesis using assms by (simp add: pos_divide_le_eq algebra_simps)
  qed
  ultimately have "\<lceil>real (Suc m) / real k\<rceil> = int (m div k) + 1"
    by (intro ceiling_unique) simp_all
  then show ?thesis by simp
qed

lemma should_update_pos:
  assumes "1 \<le> GRADIENT_ACCUMULATION_STEPS c"
  shows "should_update c n s =
           Inr (Suc s mod nat (GRADIENT_ACCUMULATION_STEPS c) = 0 \<or> Suc s = n)"
proof -
  let ?w = "GRADIENT_ACCUMULATION_STEPS c"
  have "int (Suc s mod nat ?w) = (int s + 1) mod ?w"
    using assms by (simp add: zmod_int add.commute)
  then have "((int s + 1) mod ?w = 0) = (Suc s mod nat ?w = 0)"
    by (metis of_nat_eq_0_iff)
  moreover have "(int s = int n - 1) = (Suc s = n)" by auto
  ultimately show ?thesis using assms by (simp add: should_update_def Let_def)
qed

lemma count_update_steps:
  fixes k :: nat
  assumes "0 < k" "0 < n"
  shows "length (filter (\<lambda>s. Suc s mod k = 0 \<or> Suc s = n) [0..<n]) = nat \<lceil>real n / real k\<rceil>"
proof -
  from assms obtain m where n: "n = Suc m" by (cases n) auto
  have "filter (\<lambda>s. Suc s mod k = 0 \<or> Suc s = Suc m) [0..<m]
          = filter (\<lambda>s. Suc s mod k = 0) [0..<m]"
    by (rule filter_cong) auto
  then show ?thesis using assms
    by (simp add: n count_multiples ceiling_Suc_div del: of_nat_Suc)
qed

lemma count_concat_steps:
  assumes "\<And>x. x \<in> set xs \<Longrightarrow> count_list (f x) e = (if P x then 1 else 0)"
  shows "count_list (concat (map f xs)) e = length (filter P xs)"
  using assms by (induction xs) simp_all

lemma train_step_success_fwd:
  assumes "snd (train_step a c n s io) = Inr v"
  shows "\<not> isl (snd (forward_and_loss a c io))"
proof (cases rule: fwd_cases[of a c io])
  case (fail fe e)
  with assms show ?thesis by (simp add: train_step_fail)
next
  case (ok fe cl)
  then show ?thesis by simp
qed

lemma step_rest_events:
  assumes "e \<in> set (step_rest a c n s io cl)"
  shows "e \<in> set update_calls \<or> is_pruner_call e \<or> is_log e \<or> is_metric_call e"
  using assms pruner_events[of e a io] metric_events[of e "is_regression a" io]
    telemetry_events[of e c n s io cl]
  by (auto simp: step_rest_def update_block_def update_calls_def
      split: sum.splits option.splits if_splits)

lemma step_rest_no_backward_grad_norm:
  "filter (\<lambda>e. is_backward e \<or> is_grad_norm_op e) (step_rest a c n s io cl) = []"
proof -
  have "\<not> (is_backward e \<or> is_grad_norm_op e)" if "e \<in> set (step_rest a c n s io cl)" for e
    using step_rest_events[OF that] by (cases e) (auto simp: update_calls_def)
  then show ?thesis by (simp add: filter_empty_conv)
qed

lemma forward_no_backward_grad_norm:
  "filter (\<lambda>e. is_backward e \<or> is_grad_norm_op e) (fst (forward_and_loss a c io)) = []"
proof -
  have "\<not> (is_backward e \<or> is_grad_norm_op e)" if "e \<in> set (fst (forward_and_loss a c io))" for e
    using forward_events[OF that] by (cases e) auto
  then show ?thesis by (simp add: filter_empty_conv)
qed

lemma grad_norm_block_eq:
  "grad_norm_block c =
     [if clip_configured c then Clip_grad_norm (the (CLIP_GRAD c)) else Get_grad_norm]"
  by (simp add: grad_norm_block_def clip_configured_def split: option.splits)

lemma backward_grad_norm_of_step:
  assumes "snd (forward_and_loss a c io) = Inr cl"
  shows "filter (\<lambda>e. is_backward e \<or> is_grad_norm_op e) (fst (train_step a c n s io)) =
           [Backward (tensor_div (loss_raw cl) (GRADIENT_ACCUMULATION_STEPS c)),
            if clip_configured c then Clip_grad_norm (the (CLIP_GRAD c)) else Get_grad_norm]"
proof -
  from assms obtain fe where fwd: "forward_and_loss a c io = (fe, Inr cl)"
    by (cases "forward_and_loss a c io") auto
  from forward_no_backward_grad_norm[of a c io] fwd
  have "filter (\<lambda>e. is_backward e \<or> is_grad_norm_op e) fe = []" by simp
  then show ?thesis
    by (simp add: train_step_trace[OF fwd] step_rest_no_backward_grad_norm grad_norm_block_eq)
qed

subsection \<open>Validation runs\<close>

lemma val_loop_success:
  assumes "snd (val_loop c ir tm n s ios bl) = Inr bl'"
  shows "\<exists>ls. length ls = length ios \<and> bl' = bl @ ls
            \<and> (\<forall>j<length ios. snd (val_step c ir tm n (s + j) (ios ! j)) = Inr (ls ! j))"
  using assms
proof (induction ios arbitrary: s bl)
  case Nil
  then show ?case by simp
next
  case (Cons io ios)
  from Cons.prems obtain es l where
    st: "val_step c ir tm n s io = (es, Inr l)" and
    rest: "snd (val_loop c ir tm n (Suc s) ios (bl @ [l])) = Inr bl'"
    by (auto elim: bind_run_success)
  from Cons.IH[OF rest] obtain ls where
    len: "length ls = length ios" and acc: "bl' = (bl @ [l]) @ ls" and
    steps: "\<forall>j<length ios. snd (val_step c ir tm n (Suc s + j) (ios ! j)) = Inr (ls ! j)"
    by blast
  have "\<forall>j<length (io # ios). snd (val_step c ir tm n (s + j) ((io # ios) ! j)) = Inr ((l # ls) ! j)"
  proof (intro allI impI)
    fix j assume "j < length (io # ios)"
    then show "snd (val_step c ir tm n (s + j) ((io # ios) ! j)) = Inr ((l # ls) ! j)"
      using st steps by (cases j) auto
  qed
  then show ?case using len acc by (intro exI[of _ "l # ls"]) simp
qed

lemma val_step_success:
  assumes "snd (val_step c ir tm n s io) = Inr l"
  shows "loss (student_out io) = Some l"
  using assms by (auto simp: val_step_def snd_bind_run split: option.splits sum.splits)

lemma val_success:
  fixes m :: 'r and dl :: "'t step_env list"
  assumes "snd (val c ir tm m dl) = Inr (vl, vm)"
  shows "\<exists>ls. length ls = length dl
            \<and> snd (val_loop c ir tm (length dl) 0 dl []) = Inr ls
            \<and> vl = sum_list ls / real (length ls) \<and> vm = m \<and> dl \<noteq> []
            \<and> (\<forall>j<length dl. snd (val_step c ir tm (length dl) j (dl ! j)) = Inr (ls ! j))"
proof -
  from assms obtain bl where
    lp: "snd (val_loop c ir tm (length dl) 0 dl []) = Inr bl" and
    ex: "snd (val_exit tm m bl :: ('t, real \<times> 'r) run) = Inr (vl, vm)"
    by (auto simp: val_def snd_bind_run split: sum.splits)
  from val_loop_success[OF lp] obtain ls where
    len: "length ls = length dl" and eq: "bl = [] @ ls" and
    steps: "\<forall>j<length dl. snd (val_step c ir tm (length dl) (0 + j) (dl ! j)) = Inr (ls ! j)"
    by blast
  from ex have "bl \<noteq> []" "vl = py_sum bl / real (length bl)" "vm = m"
    by (auto simp: val_exit_def mean_loss_def split: if_splits)
  then show ?thesis using len eq steps lp
    by (intro exI[of _ ls]) (auto simp: py_sum_sum_list)
qed

lemma train_step_success_value:
  assumes "snd (train_step a c n s io) = Inr v"
  shows "\<exists>cl. snd (forward_and_loss a c io) = Inr cl
           \<and> v = (loss_raw cl / real_of_int (GRADIENT_ACCUMULATION_STEPS c), lr_now io)"
proof (cases rule: fwd_cases[of a c io])
  case (fail fe e)
  with assms show ?thesis by (simp add: train_step_fail)
next
  case (ok fe cl)
  from assms show ?thesis
    unfolding train_step_outcome[OF ok] using ok
    by (auto split: sum.splits option.splits)
qed

subsection \<open>The teacher\<close>

lemma forward_teacher_untracked:
  "Forward Teacher True kd \<notin> set (fst (forward_and_loss a c io))"
  by (auto simp: forward_and_loss_def forward_def no_grad_def Let_def split: option.splits)

lemma train_step_teacher_untracked:
  "Forward Teacher True kd \<notin> set (fst (train_step a c n s io))"
proof (cases rule: fwd_cases[of a c io])
  case (fail fe e)
  with forward_teacher_untracked[of kd a c io] show ?thesis by (simp add: train_step_fail)
next
  case (ok fe cl)
  have "Forward Teacher True kd \<notin> set (step_rest a c n s io cl)"
    using step_rest_events[of "Forward Teacher True kd" a c n s io cl]
    by (auto simp: update_calls_def)
  moreover have "Forward Teacher True kd \<notin> set (grad_norm_block c)"
    using grad_norm_events[of "Forward Teacher True kd" c] by auto
  ultimately show ?thesis
    using forward_teacher_untracked[of kd a c io] ok by (simp add: train_step_trace[OF ok])
qed

lemma train_loop_teacher_untracked:
  "Forward Teacher True kd \<notin> set (fst (train_loop a c n s ios bl lrs))"
proof (induction ios arbitrary: s bl lrs)
  case Nil
  then show ?case by simp
next
  case (Cons io ios)
  then show ?case
    using train_step_teacher_untracked[of kd a c n s io]
    by (auto simp: fst_bind_run split: sum.splits)
qed

lemma train_teacher_untracked:
  "Forward Teacher True kd \<notin> set (fst (train a c m dl))"
  using train_loop_teacher_untracked[of kd a c "length dl" 0 dl "[]" "[]"]
  by (auto simp: train_def fst_bind_run train_exit_def split: sum.splits)

lemma autograd_untracked:
  assumes "\<forall>kd. Forward Teacher True kd \<notin> set es" and "\<not> teacher_graph st"
  shows "\<not> teacher_graph (foldl autograd_event st es)
         \<and> teacher_grad_writes (foldl autograd_event st es) = teacher_grad_writes st"
  using assms
proof (induction es arbitrary: st)
  case Nil
  then show ?case by simp
next
  case (Cons e es)
  have "\<not> teacher_graph (autograd_event st e)
        \<and> teacher_grad_writes (autograd_event st e) = teacher_grad_writes st"
    using Cons.prems by (cases "(st, e)" rule: autograd_event.cases) auto
  with Cons.IH[of "autograd_event st e"] Cons.prems show ?case by simp
qed

subsection \<open>The composite loss\<close>









subsection \<open>Where the gradient norm sits in a step\<close>

lemma step_rest_update_prefix:
  "should_update c n s = Inr True \<Longrightarrow> \<exists>r. step_rest a c n s io cl = update_calls @ r"
  by (simp add: step_rest_def update_block_def update_calls_def)

lemma step_rest_no_update:
  assumes "should_update c n s \<noteq> Inr True" and "e \<in> set update_calls"
  shows "e \<notin> set (step_rest a c n s io cl)"
proof (cases "should_update c n s")
  case (Inl x)
  then show ?thesis by (simp add: step_rest_def)
next
  case (Inr u)
  with assms(1) have u: "\<not> u" by simp
  have "e \<notin> set (fst (metric_block r io))" for r
    using metric_events[of e r io] update_call_kind[OF assms(2)] by auto
  moreover have "e \<notin> set (fst (train_telemetry c n s io cl x))" for x
    using telemetry_events[of e c n s io cl x] update_call_kind[OF assms(2)] by auto
  ultimately show ?thesis using Inr u by (auto simp: step_rest_def split: option.splits)
qed

subsection \<open>Pruning\<close>

lemma pruner_calls_of_block:
  "filter is_pruner_call (pruner_block a io) =
     (if pruner_given a
      then Prune # Update_mask_conditions # (if mask_cond_ret io then [Sparsity] else [])
      else [])"
  by (simp add: pruner_block_def split: option.splits)

lemma no_pruner_calls:
  "filter is_pruner_call (fst (forward_and_loss a c io)) = []"
  "filter is_pruner_call (grad_norm_block c) = []"
  "filter is_pruner_call (fst (metric_block r io)) = []"
  "filter is_pruner_call (fst (train_telemetry c n s io cl x)) = []"
  "filter is_pruner_call (update_calls :: 't event list) = []"
proof -
  show "filter is_pruner_call (fst (forward_and_loss a c io)) = []"
    using forward_events[of _ a c io] by (fastforce simp: filter_empty_conv elim: is_forward.elims)
  show "filter is_pruner_call (grad_norm_block c) = []"
    by (simp add: grad_norm_block_eq)
  show "filter is_pruner_call (fst (metric_block r io)) = []"
    by (simp add: metric_block_def Let_def split: option.splits)
  show "filter is_pruner_call (fst (train_telemetry c n s io cl x)) = []"
    by (simp add: train_telemetry_def)
  show "filter is_pruner_call (update_calls :: 't event list) = []"
    by (simp add: update_calls_def)
qed

lemma pruner_calls_of_step:
  "filter is_pruner_call (fst (train_step a c n s io)) =
     (if pruner_given a \<and> \<not> isl (snd (forward_and_loss a c io))
         \<and> should_update c n s = Inr True
      then Prune # Update_mask_conditions # (if mask_cond_ret io then [Sparsity] else [])
      else [])"
proof (cases rule: fwd_cases[of a c io])
  case (fail fe e)
  with no_pruner_calls(1)[of a c io] show ?thesis by (simp add: train_step_fail)
next
  case (ok fe cl)
  with no_pruner_calls(1)[of a c io] have fe: "filter is_pruner_call fe = []" by simp
  show ?thesis
    using ok fe
    by (simp add: train_step_trace[OF ok] step_rest_def update_block_def no_pruner_calls
        pruner_calls_of_block update_calls_def split: sum.splits option.splits)
qed

lemma prune_follows_update:
  assumes "Prune \<in> set (fst (train_step a c n s io))"
  shows "\<exists>pre post. fst (train_step a c n s io) = pre @ update_calls @ Prune # post
           \<and> filter is_pruner_call pre = []"
proof -
  from assms have "Prune \<in> set (filter is_pruner_call (fst (train_step a c n s io)))"
    by simp
  then have given: "pruner_given a" and fwd: "\<not> isl (snd (forward_and_loss a c io))"
    and upd: "should_update c n s = Inr True"
    unfolding pruner_calls_of_step by (auto split: if_splits)
  from fwd obtain fe cl where ok: "forward_and_loss a c io = (fe, Inr cl)"
    by (cases rule: fwd_cases[of a c io]) auto
  let ?pre = "fe @ Backward (tensor_div (loss_raw cl) (GRADIENT_ACCUMULATION_STEPS c))
                # grad_norm_block c"
  from given obtain tl where pb: "pruner_block a io = Prune # tl"
    by (simp add: pruner_block_def)
  have "fst (train_step a c n s io) = ?pre @ update_calls @ Prune # tl
          @ fst (metric_block (is_regression a) io)
          @ (case labels io of None \<Rightarrow> []
             | Some l \<Rightarrow> fst (train_telemetry c n s io cl
                 (loss_raw cl / real_of_int (GRADIENT_ACCUMULATION_STEPS c))))"
    using upd pb by (simp add: train_step_trace[OF ok] step_rest_def update_block_def update_calls_def)
  moreover have "filter is_pruner_call ?pre = []"
    using no_pruner_calls(1)[of a c io] ok by (simp add: no_pruner_calls)
  ultimately show ?thesis by blast
qed

lemma sparsity_report_logged:
  assumes "Sparsity \<in> set (fst (train_step a c n s io))"
  shows "mask_cond_ret io \<and> (\<exists>pre post. fst (train_step a c n s io) =
           pre @ [Update_mask_conditions, Sparsity,
                  Logger_info (Weight_sparsity (snd (sparsity_ret io)) (fst (sparsity_ret io)))]
           @ post)"
proof -
  from assms have "Sparsity \<in> set (filter is_pruner_call (fst (train_step a c n s io)))"
    by simp
  then have given: "pruner_given a" and fwd: "\<not> isl (snd (forward_and_loss a c io))"
    and upd: "should_update c n s = Inr True" and mc: "mask_cond_ret io"
    unfolding pruner_calls_of_step by (auto split: if_splits)
  from fwd obtain fe cl where ok: "forward_and_loss a c io = (fe, Inr cl)"
    by (cases rule: fwd_cases[of a c io]) auto
  let ?rep = "[Update_mask_conditions, Sparsity,
      Logger_info (Weight_sparsity (snd (sparsity_ret io)) (fst (sparsity_ret io)))] :: 'a event list"
  from given mc obtain hd where pb: "pruner_block a io = hd @ ?rep"
    by (simp add: pruner_block_def)
  have "fst (train_step a c n s io) =
          (fe @ Backward (tensor_div (loss_raw cl) (GRADIENT_ACCUMULATION_STEPS c))
                # grad_norm_block c @ update_calls @ hd) @ ?rep
          @ (fst (metric_block (is_regression a) io)
          @ (case labels io of None \<Rightarrow> []
             | Some l \<Rightarrow> fst (train_telemetry c n s io cl
                 (loss_raw cl / real_of_int (GRADIENT_ACCUMULATION_STEPS c)))))"
    using upd pb by (simp add: train_step_trace[OF ok] step_rest_def update_block_def update_calls_def)
  with mc show ?thesis by blast
qed

lemma outcome_without_pruner:
  "snd (train_step (a\<lparr>pruner_given := b\<rparr>) c n s io) = snd (train_step a c n s io)"
proof -
  have fwd: "forward_and_loss (a\<lparr>pruner_given := b\<rparr>) c io = forward_and_loss a c io"
    by (simp add: forward_and_loss_def split: option.splits)
  show ?thesis
  proof (cases rule: fwd_cases[of a c io])
    case (fail fe e)
    then show ?thesis using fwd by (simp add: train_step_fail)
  next
    case (ok fe cl)
    then show ?thesis using fwd by (simp add: train_step_outcome)
  qed
qed

subsection \<open>Metric calls\<close>

lemma add_batch_in_train_step:
  assumes "Add_batch pg lg \<in> set (fst (train_step a c n s io))"
  shows "\<exists>l pre post. labels io = Some l
           \<and> pg = Gathered (predictions_of (is_regression a) (student_out io))
           \<and> lg = Gathered l
           \<and> fst (train_step a c n s io) =
                 pre @ [Gather_predictions (predictions_of (is_regression a) (student_out io)),
                        Gather_references l, Add_batch pg lg] @ post
           \<and> filter is_metric_call pre = [] \<and> filter is_metric_call post = []"
proof (cases rule: fwd_cases[of a c io])
  case (fail fe e)
  with assms forward_events[of "Add_batch pg lg" a c io] show ?thesis
    by (simp add: train_step_fail)
next
  case (ok fe cl)
  let ?e = "Add_batch pg lg :: 'a event"
  let ?p = "predictions_of (is_regression a) (student_out io)"
  have fe: "filter is_metric_call fe = []"
    using forward_events[of _ a c io] ok by (fastforce simp: filter_empty_conv elim: is_forward.elims)
  have gn: "filter is_metric_call (grad_norm_block c) = []"
    by (simp add: grad_norm_block_eq)
  have ub: "filter is_metric_call (update_block a io) = []"
    by (simp add: update_block_def pruner_block_def split: option.splits)
  have tel: "filter is_metric_call (fst (train_telemetry c n s io cl x)) = []" for x
    by (simp add: train_telemetry_def)
  have "?e \<notin> set fe" "?e \<notin> set (grad_norm_block c)"
    using fe gn by (auto simp: filter_empty_conv)
  with assms have in_rest: "?e \<in> set (step_rest a c n s io cl)"
    by (simp add: train_step_trace[OF ok])
  have not_ub: "?e \<notin> set (update_block a io)"
    using pruner_events[of ?e a io] by (auto simp: update_block_def)
  have not_tel: "?e \<notin> set (fst (train_telemetry c n s io cl x))" for x
    using telemetry_events[of ?e c n s io cl x] by auto
  obtain u where u: "should_update c n s = Inr u"
    using in_rest by (cases "should_update c n s") (simp_all add: step_rest_def)
  obtain l where l: "labels io = Some l"
    using in_rest u not_ub
    by (cases "labels io") (auto simp: step_rest_def metric_block_def Let_def split: if_splits)
  have mem: "?e \<in> set (fst (metric_block (is_regression a) io))"
    using in_rest u l not_ub not_tel by (auto simp: step_rest_def split: if_splits)
  from mem l have pg: "pg = Gathered ?p" "lg = Gathered l"
    by (auto simp: metric_block_def Let_def)
  let ?pre = "fe @ Backward (tensor_div (loss_raw cl) (GRADIENT_ACCUMULATION_STEPS c))
                # grad_norm_block c @ (if u then update_block a io else [])"
  let ?post = "fst (train_telemetry c n s io cl
                 (loss_raw cl / real_of_int (GRADIENT_ACCUMULATION_STEPS c)))"
  have "fst (train_step a c n s io) =
          ?pre @ [Gather_predictions ?p, Gather_references l, Add_batch pg lg] @ ?post"
    using u l pg by (simp add: train_step_trace[OF ok] step_rest_def metric_block_def Let_def)
  moreover have "filter is_metric_call ?pre = []" using fe gn ub by simp
  moreover have "filter is_metric_call ?post = []" by (rule tel)
  ultimately show ?thesis using l pg by blast
qed

lemma add_batch_of_successful_step:
  assumes "snd (train_step a c n s io) = Inr v"
  shows "\<exists>pg lg. Add_batch pg lg \<in> set (fst (train_step a c n s io))"
proof (cases rule: fwd_cases[of a c io])
  case (fail fe e)
  with assms show ?thesis by (simp add: train_step_fail)
next
  case (ok fe cl)
  from assms obtain u l where "should_update c n s = Inr u" "labels io = Some l"
    unfolding train_step_outcome[OF ok] by (auto split: sum.splits option.splits)
  then show ?thesis
    by (auto simp: train_step_trace[OF ok] step_rest_def metric_block_def Let_def)
qed

lemma val_step_trace:
  "fst (val_step c ir tm n s io) =
     (case loss (student_out io) of
        None \<Rightarrow> [Forward Student False False]
      | Some l \<Rightarrow>
          Forward Student False False # fst (metric_block ir io)
          @ (case labels io of
               None \<Rightarrow> []
             | Some _ \<Rightarrow>
                 (if PRINT_FREQ c \<noteq> 0 \<and> int s mod PRINT_FREQ c = 0
                  then [Logger_info (Val_step_line tm s n l)] else [])))"
  by (simp add: val_step_def forward_def no_grad_def fst_bind_run snd_metric_block
      split: option.splits)

lemma add_batch_in_val_step:
  assumes "Add_batch pg lg \<in> set (fst (val_step c ir tm n s io))"
  shows "\<exists>l pre post. labels io = Some l
           \<and> pg = Gathered (predictions_of ir (student_out io))
           \<and> lg = Gathered l
           \<and> fst (val_step c ir tm n s io) =
                 pre @ [Gather_predictions (predictions_of ir (student_out io)),
                        Gather_references l, Add_batch pg lg] @ post
           \<and> filter is_metric_call pre = [] \<and> filter is_metric_call post = []"
proof -
  from assms obtain x l where x: "loss (student_out io) = Some x" and l: "labels io = Some l"
    and pg: "pg = Gathered (predictions_of ir (student_out io))" "lg = Gathered l"
    unfolding val_step_trace
    by (auto simp: metric_block_def Let_def split: option.splits if_splits)
  let ?post = "if PRINT_FREQ c \<noteq> 0 \<and> int s mod PRINT_FREQ c = 0
                  then [Logger_info (Val_step_line tm s n x)] else [] :: 'a event list"
  have "fst (val_step c ir tm n s io) =
          [Forward Student False False]
          @ [Gather_predictions (predictions_of ir (student_out io)),
             Gather_references l, Add_batch pg lg] @ ?post"
    using x l pg by (simp add: val_step_trace metric_block_def Let_def)
  moreover have "filter is_metric_call [Forward Student False False :: 'a event] = []" by simp
  moreover have "filter is_metric_call ?post = []" by simp
  ultimately show ?thesis using l pg by blast
qed

lemma add_batch_of_successful_val_step:
  assumes "snd (val_step c ir tm n s io) = Inr v"
  shows "\<exists>pg lg. Add_batch pg lg \<in> set (fst (val_step c ir tm n s io))"
proof -
  from assms obtain x l where "loss (student_out io) = Some x" "labels io = Some l"
    by (auto simp: val_step_def snd_bind_run snd_metric_block split: option.splits sum.splits)
  then show ?thesis by (auto simp: val_step_trace metric_block_def Let_def)
qed

lemmas run_defs = train_def train_exit_def train_step_def forward_and_loss_def
  accumulate_block_def should_update_def grad_norm_block_def update_block_def
  pruner_block_def metric_block_def predictions_of_def train_telemetry_def forward_def
  no_grad_def tensor_div_def layer_loss_loop_def py_slice_from_def mean_loss_def py_sum_def
  val_def val_exit_def val_step_def step_trace_def Let_def

lemmas ex_defs = ex_config_def ex_args_def ex_env_def ex_loader_def ex_kd_args_def
  ex_bad_kd_args_def ex_kd_env_def

lemma ex_train_run:
  "snd (train ex_args ex_config () ex_loader) =
     Inr \<lparr>train_loss = 11 / 8, train_results = (),
          step_lrs = [1 / 10, 1 / 10, 1 / 10, 1 / 10, 1 / 10, 1 / 10, 1 / 10, 1 / 10, 1 / 10,
                      1 / 10]\<rparr>"
  by (simp add: run_defs ex_defs)

lemma ex_val_run: "snd (val ex_config False False () ex_loader) = Inr (11 / 2, ())"
  by (simp add: run_defs ex_defs)

section \<open>The claims\<close>

text \<open>
  C1. In an epoch of \<open>n\<close> steps with accumulation window \<open>w \<ge> 1\<close> that runs to its end, the
  decision of line 79 at step \<open>s\<close> is \<open>(s + 1) mod w = 0\<close> or \<open>s = n - 1\<close>; each of the
  optimizer step, the scheduler step, the gradient zeroing and the progress advance occurs
  exactly once in a step where the decision is true, and not at all in any other step; the
  epoch's trace holds exactly \<open>ceil(n / w)\<close> optimizer steps; and the last step, which
  exists, holds one.
\<close>

theorem update_schedule:
  fixes a :: "'t train_args" and m :: 'r
  assumes w: "1 \<le> GRADIENT_ACCUMULATION_STEPS c"
    and run: "snd (train a c m dl) = Inr r"
  shows "(\<forall>s<length dl.
            should_update c (length dl) s =
              Inr ((s + 1) mod nat (GRADIENT_ACCUMULATION_STEPS c) = 0 \<or> s = length dl - 1)
            \<and> (\<forall>e\<in>set update_calls.
                  count_list (step_trace a c dl s) e =
                    (if (s + 1) mod nat (GRADIENT_ACCUMULATION_STEPS c) = 0 \<or> s = length dl - 1
                     then 1 else 0)))
         \<and> count_list (fst (train a c m dl)) Optimizer_step =
               nat \<lceil>real (length dl) / real_of_int (GRADIENT_ACCUMULATION_STEPS c)\<rceil>
         \<and> 1 \<le> length dl
         \<and> Optimizer_step \<in> set (step_trace a c dl (length dl - 1))"
proof -
  let ?n = "length dl" and ?k = "nat (GRADIENT_ACCUMULATION_STEPS c)"
  let ?P = "\<lambda>s. Suc s mod ?k = 0 \<or> Suc s = ?n"
  from w have k: "0 < ?k" by simp
  note ts = train_success[OF run]
  from ts(1) have n: "0 < ?n" by simp
  from ts(3) have steps: "\<And>j. j < ?n \<Longrightarrow> \<exists>v. snd (train_step a c ?n j (dl ! j)) = Inr v"
    by blast
  have upd: "should_update c ?n s = Inr (?P s)" for s
    by (rule should_update_pos[OF w])
  have cnt: "count_list (step_trace a c dl s) e = (if ?P s then 1 else 0)"
    if "s < ?n" "e \<in> set update_calls" for s e
  proof -
    from steps[OF that(1)] have "\<not> isl (snd (forward_and_loss a c (dl ! s)))"
      by (auto dest: train_step_success_fwd)
    then show ?thesis
      using count_update_call_step[OF that(2), of a c ?n s "dl ! s"] upd[of s]
      by (simp add: step_trace_def)
  qed
  have same: "(s + 1) mod ?k = 0 \<or> s = ?n - 1 \<longleftrightarrow> ?P s" if "s < ?n" for s
    using that by auto
  have part1: "\<forall>s<?n.
            should_update c ?n s = Inr ((s + 1) mod ?k = 0 \<or> s = ?n - 1)
            \<and> (\<forall>e\<in>set update_calls.
                  count_list (step_trace a c dl s) e =
                    (if (s + 1) mod ?k = 0 \<or> s = ?n - 1 then 1 else 0))"
    using upd cnt same by simp
  have os: "Optimizer_step \<in> set (update_calls :: 't event list)"
    by (simp add: update_calls_def)
  have "count_list (concat (map (step_trace a c dl) [0..<?n])) Optimizer_step
          = length (filter ?P [0..<?n])"
    by (rule count_concat_steps) (use cnt os in auto)
  also have "\<dots> = nat \<lceil>real ?n / real ?k\<rceil>"
    by (rule count_update_steps[OF k n])
  finally have part2: "count_list (fst (train a c m dl)) Optimizer_step
          = nat \<lceil>real ?n / real_of_int (GRADIENT_ACCUMULATION_STEPS c)\<rceil>"
    using w by (simp add: ts(2))
  have "count_list (step_trace a c dl (?n - 1)) Optimizer_step = 1"
    using cnt[of "?n - 1" Optimizer_step] n os by simp
  then have part3: "Optimizer_step \<in> set (step_trace a c dl (?n - 1))"
    by (metis count_list_0_iff zero_neq_one)
  have part4: "1 \<le> ?n" using ts(1) by (cases dl) simp_all
  from part1 part2 part4 part3 show ?thesis by blast
qed

theorem update_schedule_witness:
  "count_list (fst (train ex_args ex_config () ex_loader)) Optimizer_step = 3
   \<and> Optimizer_step \<in> set (step_trace ex_args ex_config ex_loader 9)
   \<and> count_list (step_trace ex_args ex_config ex_loader 3) Zero_grad = 1
   \<and> count_list (step_trace ex_args ex_config ex_loader 4) Zero_grad = 0"
proof -
  have w: "1 \<le> GRADIENT_ACCUMULATION_STEPS ex_config" by (simp add: ex_config_def)
  have len: "length ex_loader = 10" by (simp add: ex_loader_def)
  have zg: "Zero_grad \<in> set (update_calls :: int event list)" by (simp add: update_calls_def)
  note us = update_schedule[OF w ex_train_run]
  from us have "count_list (fst (train ex_args ex_config () ex_loader)) Optimizer_step =
      nat \<lceil>real (length ex_loader) / real_of_int (GRADIENT_ACCUMULATION_STEPS ex_config)\<rceil>"
    by blast
  then have 1: "count_list (fst (train ex_args ex_config () ex_loader)) Optimizer_step = 3"
    by (simp add: len ex_config_def)
  from us have 2: "Optimizer_step \<in> set (step_trace ex_args ex_config ex_loader 9)"
    by (simp add: len)
  from us have per_step: "\<forall>s<length ex_loader. \<forall>e\<in>set update_calls.
      count_list (step_trace ex_args ex_config ex_loader s) e =
        (if (s + 1) mod nat (GRADIENT_ACCUMULATION_STEPS ex_config) = 0 \<or> s = length ex_loader - 1
         then 1 else 0)"
    by blast
  from per_step zg have 3: "count_list (step_trace ex_args ex_config ex_loader 3) Zero_grad = 1"
    by (simp add: len ex_config_def)
  from per_step zg have 4: "count_list (step_trace ex_args ex_config ex_loader 4) Zero_grad = 0"
    by (simp add: len ex_config_def)
  from 1 2 3 4 show ?thesis by blast
qed

text \<open>
  C2. In every training step whose loss is composed, with a window other than zero, the
  only backward call of the step receives the raw composed loss divided by the window,
  whatever the index of the step and the length of the epoch, hence whether or not the
  step updates.
\<close>

theorem backward_loss_scaled:
  assumes "GRADIENT_ACCUMULATION_STEPS c \<noteq> 0"
    and "snd (forward_and_loss a c io) = Inr cl"
  shows "filter is_backward (fst (train_step a c n s io)) =
           [Backward (Finite (loss_raw cl / real_of_int (GRADIENT_ACCUMULATION_STEPS c)))]"
proof -
  have "filter is_backward (fst (train_step a c n s io)) =
          filter is_backward
            (filter (\<lambda>e. is_backward e \<or> is_grad_norm_op e) (fst (train_step a c n s io)))"
  proof -
    have "((is_backward e \<or> is_grad_norm_op e) \<and> is_backward e) = is_backward e"
      for e :: "'a event"
      by blast
    then show ?thesis by simp
  qed
  also have "\<dots> = [Backward (tensor_div (loss_raw cl) (GRADIENT_ACCUMULATION_STEPS c))]"
    by (simp add: backward_grad_norm_of_step[OF assms(2)])
  finally show ?thesis using assms(1) by (simp add: tensor_div_def)
qed

theorem backward_loss_scaled_witness:
  "filter is_backward (fst (train_step ex_args ex_config 10 0 (ex_env 2))) =
     [Backward (Finite (1 / 2))]
   \<and> should_update ex_config 10 0 = Inr False"
proof -
  have w: "GRADIENT_ACCUMULATION_STEPS ex_config \<noteq> 0" by (simp add: ex_config_def)
  have fwd: "snd (forward_and_loss ex_args ex_config (ex_env 2)) =
               Inr \<lparr>loss_raw = 2, kd_parts = None, parts_are_tensors = True\<rparr>"
    by (simp add: forward_and_loss_def ex_defs)
  from backward_loss_scaled[OF w fwd, of 10 0] show ?thesis
    by (simp add: ex_config_def should_update_def)
qed



text \<open>
  C4. In every run of \<open>train\<close>, complete or not, each forward pass of the teacher has
  gradient tracking switched off; replayed against the autograd contract, the run deposits
  no gradient in the teacher's parameters.
\<close>

theorem teacher_forward_no_grad:
  "(\<forall>g kd. Forward Teacher g kd \<in> set (fst (train a c m dl)) \<longrightarrow> \<not> g)
   \<and> teacher_grad_writes (autograd_replay (fst (train a c m dl))) = 0"
proof
  show "\<forall>g kd. Forward Teacher g kd \<in> set (fst (train a c m dl)) \<longrightarrow> \<not> g"
    using train_teacher_untracked[of _ a c m dl] by auto
  have "\<forall>kd. Forward Teacher True kd \<notin> set (fst (train a c m dl))"
    by (simp add: train_teacher_untracked)
  from autograd_untracked[OF this, of "\<lparr>teacher_graph = False, teacher_grad_writes = 0\<rparr>"]
  show "teacher_grad_writes (autograd_replay (fst (train a c m dl))) = 0"
    by (simp add: autograd_replay_def)
qed

theorem teacher_forward_no_grad_witness:
  "Forward Teacher False True \<in> set (fst (train ex_kd_args ex_config () [ex_env 7]))
   \<and> Forward Teacher True True \<notin> set (fst (train ex_kd_args ex_config () [ex_env 7]))
   \<and> teacher_grad_writes (autograd_replay (fst (train ex_kd_args ex_config () [ex_env 7]))) = 0"
proof -
  have "Forward Teacher False True \<in> set (fst (train ex_kd_args ex_config () [ex_env 7]))"
    by (simp add: run_defs ex_defs)
  with teacher_forward_no_grad[of ex_kd_args ex_config "()" "[ex_env 7]"] show ?thesis
    by blast
qed

text \<open>
  C5, as stated: the gradient norm is clipped or measured only in steps that update. It
  fails: step 0 of ten with window 4 does not update, and the norm is measured there (and
  clipped there when a maximum is configured).
\<close>

theorem grad_norm_on_accumulating_step:
  "should_update ex_config 10 0 = Inr False
   \<and> Get_grad_norm \<in> set (fst (train_step ex_args ex_config 10 0 (ex_env 1)))
   \<and> should_update (ex_config\<lparr>CLIP_GRAD := Some 1\<rparr>) 10 0 = Inr False
   \<and> Clip_grad_norm 1
       \<in> set (fst (train_step ex_args (ex_config\<lparr>CLIP_GRAD := Some 1\<rparr>) 10 0 (ex_env 1)))"
  by (simp add: run_defs ex_defs)

text \<open>
  C5, amended: in every training step whose loss is composed, whether or not the step
  updates, the trace is the forward passes, then the backward call, then at once exactly
  one operation on the gradient norm (a clipping to the configured maximum when
  \<open>CLIP_GRAD\<close> is set and not zero, a measurement otherwise), then the rest of the step,
  which holds no further forward, backward or norm operation. In a step that updates, the
  four update calls follow the norm operation directly; in any other step there is none.
\<close>

theorem grad_norm_every_step:
  assumes "snd (forward_and_loss a c io) = Inr cl"
  shows "\<exists>post. fst (train_step a c n s io) =
             fst (forward_and_loss a c io)
             @ [Backward (tensor_div (loss_raw cl) (GRADIENT_ACCUMULATION_STEPS c)),
                if clip_configured c then Clip_grad_norm (the (CLIP_GRAD c)) else Get_grad_norm]
             @ post
           \<and> (\<forall>e\<in>set (fst (forward_and_loss a c io)). is_forward e)
           \<and> (\<forall>e\<in>set post. \<not> is_forward e \<and> \<not> is_backward e \<and> \<not> is_grad_norm_op e)
           \<and> (should_update c n s = Inr True \<longrightarrow> (\<exists>r. post = update_calls @ r))
           \<and> (should_update c n s \<noteq> Inr True \<longrightarrow> (\<forall>e\<in>set update_calls. e \<notin> set post))"
proof -
  from assms obtain fe where ok: "forward_and_loss a c io = (fe, Inr cl)"
    by (cases "forward_and_loss a c io") auto
  let ?post = "step_rest a c n s io cl"
  have 1: "fst (train_step a c n s io) =
             fst (forward_and_loss a c io)
             @ [Backward (tensor_div (loss_raw cl) (GRADIENT_ACCUMULATION_STEPS c)),
                if clip_configured c then Clip_grad_norm (the (CLIP_GRAD c)) else Get_grad_norm]
             @ ?post"
    using ok by (simp add: train_step_trace[OF ok] grad_norm_block_eq)
  have 2: "\<forall>e\<in>set (fst (forward_and_loss a c io)). is_forward e"
    using forward_events[of _ a c io] by blast
  have 3: "\<forall>e\<in>set ?post. \<not> is_forward e \<and> \<not> is_backward e \<and> \<not> is_grad_norm_op e"
  proof
    fix e assume "e \<in> set ?post"
    from step_rest_events[OF this]
    show "\<not> is_forward e \<and> \<not> is_backward e \<and> \<not> is_grad_norm_op e"
      by (cases e) (auto simp: update_calls_def)
  qed
  have 4: "should_update c n s = Inr True \<longrightarrow> (\<exists>r. ?post = update_calls @ r)"
    using step_rest_update_prefix[of c n s a io cl] by blast
  have 5: "should_update c n s \<noteq> Inr True \<longrightarrow> (\<forall>e\<in>set update_calls. e \<notin> set ?post)"
    using step_rest_no_update[of c n s _ a io cl] by blast
  from 1 2 3 4 5 show ?thesis by blast
qed

theorem grad_norm_every_step_witness:
  "should_update ex_config 10 0 = Inr False
   \<and> (\<exists>post. fst (train_step ex_args ex_config 10 0 (ex_env 2)) =
          [Forward Student True False, Backward (Finite (1 / 2)), Get_grad_norm] @ post
        \<and> (\<forall>e\<in>set update_calls. e \<notin> set post))
   \<and> should_update (ex_config\<lparr>CLIP_GRAD := Some 1\<rparr>) 10 3 = Inr True
   \<and> (\<exists>r. fst (train_step ex_args (ex_config\<lparr>CLIP_GRAD := Some 1\<rparr>) 10 3 (ex_env 2)) =
          [Forward Student True False, Backward (Finite (1 / 2)), Clip_grad_norm 1]
          @ update_calls @ r)"
proof -
  let ?c = "ex_config\<lparr>CLIP_GRAD := Some 1\<rparr>"
  have fwd: "snd (forward_and_loss ex_args ex_config (ex_env 2)) =
               Inr \<lparr>loss_raw = 2, kd_parts = None, parts_are_tensors = True\<rparr>"
    and fwd': "snd (forward_and_loss ex_args ?c (ex_env 2)) =
               Inr \<lparr>loss_raw = 2, kd_parts = None, parts_are_tensors = True\<rparr>"
    and fe: "fst (forward_and_loss ex_args ex_config (ex_env 2)) = [Forward Student True False]"
    and fe': "fst (forward_and_loss ex_args ?c (ex_env 2)) = [Forward Student True False]"
    by (simp_all add: forward_and_loss_def forward_def ex_defs)
  have u0: "should_update ex_config 10 0 = Inr False"
    and u3: "should_update ?c 10 3 = Inr True"
    by (simp_all add: should_update_def ex_config_def)
  have ops: "\<not> clip_configured ex_config" "clip_configured ?c" "the (CLIP_GRAD ?c) = 1"
    "tensor_div 2 (GRADIENT_ACCUMULATION_STEPS ex_config) = Finite (1 / 2)"
    "tensor_div 2 (GRADIENT_ACCUMULATION_STEPS ?c) = Finite (1 / 2)"
    by (simp_all add: clip_configured_def tensor_div_def ex_config_def)
  from grad_norm_every_step[OF fwd, of 10 0] obtain post where
    A: "fst (train_step ex_args ex_config 10 0 (ex_env 2)) =
          fst (forward_and_loss ex_args ex_config (ex_env 2))
          @ [Backward (tensor_div (loss_raw \<lparr>loss_raw = 2, kd_parts = None, parts_are_tensors = True\<rparr>)
                         (GRADIENT_ACCUMULATION_STEPS ex_config)),
             if clip_configured ex_config then Clip_grad_norm (the (CLIP_GRAD ex_config))
             else Get_grad_norm]
          @ post" and
    B: "should_update ex_config 10 0 \<noteq> Inr True \<longrightarrow> (\<forall>e\<in>set update_calls. e \<notin> set post)"
    by blast
  from A have "fst (train_step ex_args ex_config 10 0 (ex_env 2)) =
       [Forward Student True False, Backward (Finite (1 / 2)), Get_grad_norm] @ post"
    by (simp add: fe ops)
  with B u0 have 1: "\<exists>post. fst (train_step ex_args ex_config 10 0 (ex_env 2)) =
          [Forward Student True False, Backward (Finite (1 / 2)), Get_grad_norm] @ post
        \<and> (\<forall>e\<in>set update_calls. e \<notin> set post)"
    by (intro exI[of _ post]) simp
  from grad_norm_every_step[OF fwd', of 10 3] obtain post' where
    A': "fst (train_step ex_args ?c 10 3 (ex_env 2)) =
          fst (forward_and_loss ex_args ?c (ex_env 2))
          @ [Backward (tensor_div (loss_raw \<lparr>loss_raw = 2, kd_parts = None, parts_are_tensors = True\<rparr>)
                         (GRADIENT_ACCUMULATION_STEPS ?c)),
             if clip_configured ?c then Clip_grad_norm (the (CLIP_GRAD ?c)) else Get_grad_norm]
          @ post'" and
    B': "should_update ?c 10 3 = Inr True \<longrightarrow> (\<exists>r. post' = update_calls @ r)"
    by blast
  from B' u3 obtain r where r: "post' = update_calls @ r" by blast
  from A' have "fst (train_step ex_args ?c 10 3 (ex_env 2)) =
       [Forward Student True False, Backward (Finite (1 / 2)), Clip_grad_norm 1] @ post'"
    by (simp add: fe' ops)
  with r have 2: "\<exists>r. fst (train_step ex_args ?c 10 3 (ex_env 2)) =
          [Forward Student True False, Backward (Finite (1 / 2)), Clip_grad_norm 1]
          @ update_calls @ r"
    by (intro exI[of _ r]) simp
  from u0 1 u3 2 show ?thesis by (intro conjI)
qed

text \<open>
  C6. When \<open>train\<close> returns, its loss is the sum of the floats that the steps appended to
  \<open>batch_loss\<close>, one per batch (each the raw loss of its step divided by the window),
  divided by their number; when \<open>val\<close> returns, its loss is the sum of the losses of the
  model on the batches divided by their number.
\<close>

theorem epoch_mean_loss:
  fixes a :: "'t train_args" and m :: 'r
  shows "(snd (train a c m dl) = Inr r \<longrightarrow>
            (\<exists>ls rs. snd (train_loop a c (length dl) 0 dl [] []) = Inr (ls, rs)
               \<and> length ls = length dl \<and> dl \<noteq> []
               \<and> (\<forall>j<length dl. \<exists>cl.
                     snd (forward_and_loss a c (dl ! j)) = Inr cl
                     \<and> ls ! j = loss_raw cl / real_of_int (GRADIENT_ACCUMULATION_STEPS c))
               \<and> train_loss r = sum_list ls / real (length ls)))
       \<and> (snd (val c is_reg teacher_mode m dl) = Inr (vl, vm) \<longrightarrow>
            (\<exists>ls. snd (val_loop c is_reg teacher_mode (length dl) 0 dl []) = Inr ls
               \<and> length ls = length dl \<and> dl \<noteq> []
               \<and> (\<forall>j<length dl. loss (student_out (dl ! j)) = Some (ls ! j))
               \<and> vl = sum_list ls / real (length ls)))"
proof (intro conjI impI)
  assume run: "snd (train a c m dl) = Inr r"
  from train_success(3)[OF run] obtain ls rs where
    len: "length ls = length dl" and
    lp: "snd (train_loop a c (length dl) 0 dl [] []) = Inr (ls, rs)" and
    mean: "train_loss r = sum_list ls / real (length ls)" and
    steps: "\<forall>j<length dl. snd (train_step a c (length dl) j (dl ! j)) = Inr (ls ! j, rs ! j)"
    by blast
  have "\<forall>j<length dl. \<exists>cl. snd (forward_and_loss a c (dl ! j)) = Inr cl
          \<and> ls ! j = loss_raw cl / real_of_int (GRADIENT_ACCUMULATION_STEPS c)"
  proof (intro allI impI)
    fix j assume "j < length dl"
    with steps have "snd (train_step a c (length dl) j (dl ! j)) = Inr (ls ! j, rs ! j)" by simp
    from train_step_success_value[OF this]
    show "\<exists>cl. snd (forward_and_loss a c (dl ! j)) = Inr cl
          \<and> ls ! j = loss_raw cl / real_of_int (GRADIENT_ACCUMULATION_STEPS c)"
      by auto
  qed
  with len lp mean train_success(1)[OF run]
  show "\<exists>ls rs. snd (train_loop a c (length dl) 0 dl [] []) = Inr (ls, rs)
               \<and> length ls = length dl \<and> dl \<noteq> []
               \<and> (\<forall>j<length dl. \<exists>cl.
                     snd (forward_and_loss a c (dl ! j)) = Inr cl
                     \<and> ls ! j = loss_raw cl / real_of_int (GRADIENT_ACCUMULATION_STEPS c))
               \<and> train_loss r = sum_list ls / real (length ls)"
    by blast
next
  assume run: "snd (val c is_reg teacher_mode m dl) = Inr (vl, vm)"
  from val_success[OF run] obtain ls where
    len: "length ls = length dl" and
    lp: "snd (val_loop c is_reg teacher_mode (length dl) 0 dl []) = Inr ls" and
    mean: "vl = sum_list ls / real (length ls)" and ne: "dl \<noteq> []" and
    steps: "\<forall>j<length dl. snd (val_step c is_reg teacher_mode (length dl) j (dl ! j)) = Inr (ls ! j)"
    by blast
  from steps have "\<forall>j<length dl. loss (student_out (dl ! j)) = Some (ls ! j)"
    by (auto dest: val_step_success)
  with len lp mean ne
  show "\<exists>ls. snd (val_loop c is_reg teacher_mode (length dl) 0 dl []) = Inr ls
               \<and> length ls = length dl \<and> dl \<noteq> []
               \<and> (\<forall>j<length dl. loss (student_out (dl ! j)) = Some (ls ! j))
               \<and> vl = sum_list ls / real (length ls)"
    by blast
qed

theorem epoch_mean_loss_witness:
  "(\<exists>ls rs. snd (train_loop ex_args ex_config 10 0 ex_loader [] []) = Inr (ls, rs)
      \<and> length ls = 10 \<and> 11 / 8 = sum_list ls / real (length ls))
   \<and> (\<exists>ls. snd (val_loop ex_config False False 10 0 ex_loader []) = Inr ls
      \<and> length ls = 10 \<and> 11 / 2 = sum_list ls / real (length ls))"
proof -
  have len: "length ex_loader = 10" by (simp add: ex_loader_def)
  note ml = epoch_mean_loss[where a = ex_args and c = ex_config and m = "()" and dl = ex_loader
      and is_reg = False and teacher_mode = False and vl = "11 / 2" and vm = "()"]
  from ml[THEN conjunct1, rule_format, OF ex_train_run] obtain ls rs where
    "snd (train_loop ex_args ex_config (length ex_loader) 0 ex_loader [] []) = Inr (ls, rs)"
    "length ls = length ex_loader" "11 / 8 = sum_list ls / real (length ls)"
    by auto
  then have tr: "\<exists>ls rs. snd (train_loop ex_args ex_config 10 0 ex_loader [] []) = Inr (ls, rs)
      \<and> length ls = 10 \<and> 11 / 8 = sum_list ls / real (length ls)"
    unfolding len by blast
  from ml[THEN conjunct2, rule_format, OF ex_val_run] obtain ls where
    "snd (val_loop ex_config False False (length ex_loader) 0 ex_loader []) = Inr ls"
    "length ls = length ex_loader" "11 / 2 = sum_list ls / real (length ls)"
    by auto
  then have "\<exists>ls. snd (val_loop ex_config False False 10 0 ex_loader []) = Inr ls
      \<and> length ls = 10 \<and> 11 / 2 = sum_list ls / real (length ls)"
    unfolding len by blast
  with tr show ?thesis by blast
qed

text \<open>
  C7. In a training step the calls on the pruner are made only when a pruner is given and
  the step updates; they are then \<open>prune\<close>, \<open>_update_mask_conditions\<close> and, only when the
  latter answered true, \<open>sparsity\<close>, in this order. \<open>prune\<close> comes right after the four
  update calls, no call on the pruner precedes it, and the report of \<open>sparsity\<close> is logged
  right after it is obtained. Without a pruner the step makes no call on a pruner and ends
  as it would with one.
\<close>

theorem pruning_hooks:
  "filter is_pruner_call (fst (train_step a c n s io)) =
     (if pruner_given a \<and> \<not> isl (snd (forward_and_loss a c io))
         \<and> should_update c n s = Inr True
      then Prune # Update_mask_conditions # (if mask_cond_ret io then [Sparsity] else [])
      else [])
   \<and> (Prune \<in> set (fst (train_step a c n s io)) \<longrightarrow>
        (\<exists>pre post. fst (train_step a c n s io) = pre @ update_calls @ Prune # post
           \<and> filter is_pruner_call pre = []))
   \<and> (Sparsity \<in> set (fst (train_step a c n s io)) \<longrightarrow>
        mask_cond_ret io \<and>
        (\<exists>pre post. fst (train_step a c n s io) =
           pre @ [Update_mask_conditions, Sparsity,
                  Logger_info (Weight_sparsity (snd (sparsity_ret io)) (fst (sparsity_ret io)))]
           @ post))
   \<and> snd (train_step (a\<lparr>pruner_given := False\<rparr>) c n s io) = snd (train_step a c n s io)"
  using pruner_calls_of_step[of a c n s io] prune_follows_update[of a c n s io]
    sparsity_report_logged[of a c n s io] outcome_without_pruner[where b = False]
  by blast

theorem pruning_hooks_witness:
  "Prune \<in> set (fst (train_step ex_kd_args ex_config 10 3 (ex_env 4)))
   \<and> Sparsity \<in> set (fst (train_step ex_kd_args ex_config 10 3 (ex_env 4)))
   \<and> (\<exists>pre post. fst (train_step ex_kd_args ex_config 10 3 (ex_env 4)) =
          pre @ update_calls @ Prune # post \<and> filter is_pruner_call pre = [])
   \<and> filter is_pruner_call (fst (train_step ex_kd_args ex_config 10 3 (ex_env 4))) =
        [Prune, Update_mask_conditions, Sparsity]
   \<and> filter is_pruner_call (fst (train_step ex_kd_args ex_config 10 4 (ex_env 5))) = []"
proof -
  have 1: "Prune \<in> set (fst (train_step ex_kd_args ex_config 10 3 (ex_env 4)))"
    by (simp add: run_defs ex_defs)
  have 2: "Sparsity \<in> set (fst (train_step ex_kd_args ex_config 10 3 (ex_env 4)))"
    by (simp add: run_defs ex_defs)
  have 3: "pruner_given ex_kd_args \<and> \<not> isl (snd (forward_and_loss ex_kd_args ex_config (ex_env 4)))
           \<and> should_update ex_config 10 3 = Inr True \<and> mask_cond_ret (ex_env 4)"
    by (simp add: run_defs ex_defs)
  have 4: "should_update ex_config 10 4 = Inr False"
    by (simp add: run_defs ex_defs)
  from pruning_hooks[of ex_kd_args ex_config 10 3 "ex_env 4"]
    pruning_hooks[of ex_kd_args ex_config 10 4 "ex_env 5"] 1 2 3 4
  show ?thesis by simp
qed

text \<open>
  C8. In a step of \<open>train\<close> and in a step of \<open>val\<close>, every call of \<open>add_batch\<close> receives the
  gathered predictions and the gathered labels of the batch, the predictions being the
  argmax of the logits when \<open>is_regression\<close> is false and the squeezed logits when it is
  true; the two gather calls come right before it, and the step makes no other call on the
  gather or on the aggregator. A step that ends without an exception has made the call.
\<close>

theorem predictions_gathered:
  "(\<forall>pg lg. Add_batch pg lg \<in> set (fst (train_step a c n s io)) \<longrightarrow>
      (\<exists>l pre post. labels io = Some l
         \<and> pg = Gathered (if \<not> is_regression a then Argmax (logits (student_out io))
                          else Squeeze (logits (student_out io)))
         \<and> lg = Gathered l
         \<and> fst (train_step a c n s io) =
               pre @ [Gather_predictions (if \<not> is_regression a then Argmax (logits (student_out io))
                                          else Squeeze (logits (student_out io))),
                      Gather_references l, Add_batch pg lg] @ post
         \<and> filter is_metric_call pre = [] \<and> filter is_metric_call post = []))
   \<and> (\<forall>v. snd (train_step a c n s io) = Inr v \<longrightarrow>
         (\<exists>pg lg. Add_batch pg lg \<in> set (fst (train_step a c n s io))))
   \<and> (\<forall>pg lg. Add_batch pg lg \<in> set (fst (val_step c is_reg teacher_mode n s io)) \<longrightarrow>
      (\<exists>l pre post. labels io = Some l
         \<and> pg = Gathered (if \<not> is_reg then Argmax (logits (student_out io))
                          else Squeeze (logits (student_out io)))
         \<and> lg = Gathered l
         \<and> fst (val_step c is_reg teacher_mode n s io) =
               pre @ [Gather_predictions (if \<not> is_reg then Argmax (logits (student_out io))
                                          else Squeeze (logits (student_out io))),
                      Gather_references l, Add_batch pg lg] @ post
         \<and> filter is_metric_call pre = [] \<and> filter is_metric_call post = []))
   \<and> (\<forall>v. snd (val_step c is_reg teacher_mode n s io) = Inr v \<longrightarrow>
         (\<exists>pg lg. Add_batch pg lg \<in> set (fst (val_step c is_reg teacher_mode n s io))))"
  using add_batch_in_train_step[of _ _ a c n s io] add_batch_of_successful_step[of a c n s io]
    add_batch_in_val_step[of _ _ c is_reg teacher_mode n s io]
    add_batch_of_successful_val_step[of c is_reg teacher_mode n s io]
  unfolding predictions_of_def by blast

theorem predictions_gathered_witness:
  "Add_batch (Gathered (Argmax 3)) (Gathered 1)
     \<in> set (fst (train_step ex_args ex_config 10 0 (ex_env 1)))
   \<and> Add_batch (Gathered (Squeeze 3)) (Gathered 1)
     \<in> set (fst (val_step ex_config True False 10 0 (ex_env 1)))
   \<and> (\<exists>pre post. fst (train_step ex_args ex_config 10 0 (ex_env 1)) =
         pre @ [Gather_predictions (Argmax 3), Gather_references 1,
                Add_batch (Gathered (Argmax 3)) (Gathered 1)] @ post
         \<and> filter is_metric_call pre = [] \<and> filter is_metric_call post = [])
   \<and> (\<exists>pre post. fst (val_step ex_config True False 10 0 (ex_env 1)) =
         pre @ [Gather_predictions (Squeeze 3), Gather_references 1,
                Add_batch (Gathered (Squeeze 3)) (Gathered 1)] @ post
         \<and> filter is_metric_call pre = [] \<and> filter is_metric_call post = [])"
proof -
  have 1: "Add_batch (Gathered (Argmax 3)) (Gathered 1)
             \<in> set (fst (train_step ex_args ex_config 10 0 (ex_env 1)))"
    by (simp add: run_defs ex_defs)
  have 2: "Add_batch (Gathered (Squeeze 3)) (Gathered 1)
             \<in> set (fst (val_step ex_config True False 10 0 (ex_env 1)))"
    by (simp add: run_defs ex_defs fst_bind_run)
  have 3: "\<not> is_regression ex_args" "logits (student_out (ex_env 1)) = 3"
    "labels (ex_env 1) = Some 1"
    by (simp_all add: ex_defs)
  note pg = predictions_gathered[of ex_args ex_config 10 0 "ex_env 1" True False]
  from pg[THEN conjunct1, rule_format, OF 1]
  obtain l pre post where
    "labels (ex_env 1) = Some l"
    "fst (train_step ex_args ex_config 10 0 (ex_env 1)) =
       pre @ [Gather_predictions (if \<not> is_regression ex_args
                                  then Argmax (logits (student_out (ex_env 1)))
                                  else Squeeze (logits (student_out (ex_env 1)))),
              Gather_references l, Add_batch (Gathered (Argmax 3)) (Gathered 1)] @ post"
    "filter is_metric_call pre = []" "filter is_metric_call post = []"
    by blast
  with 3 have tr: "\<exists>pre post. fst (train_step ex_args ex_config 10 0 (ex_env 1)) =
         pre @ [Gather_predictions (Argmax 3), Gather_references 1,
                Add_batch (Gathered (Argmax 3)) (Gathered 1)] @ post
         \<and> filter is_metric_call pre = [] \<and> filter is_metric_call post = []"
    by (intro exI[of _ pre] exI[of _ post]) simp
  from pg[THEN conjunct2, THEN conjunct2, THEN conjunct1, rule_format, OF 2]
  obtain l pre post where
    "labels (ex_env 1) = Some l"
    "fst (val_step ex_config True False 10 0 (ex_env 1)) =
       pre @ [Gather_predictions (if \<not> True
                                  then Argmax (logits (student_out (ex_env 1)))
                                  else Squeeze (logits (student_out (ex_env 1)))),
              Gather_references l, Add_batch (Gathered (Squeeze 3)) (Gathered 1)] @ post"
    "filter is_metric_call pre = []" "filter is_metric_call post = []"
    by blast
  with 3 have "\<exists>pre post. fst (val_step ex_config True False 10 0 (ex_env 1)) =
         pre @ [Gather_predictions (Squeeze 3), Gather_references 1,
                Add_batch (Gathered (Squeeze 3)) (Gathered 1)] @ post
         \<and> filter is_metric_call pre = [] \<and> filter is_metric_call post = []"
    by (intro exI[of _ pre] exI[of _ post]) simp
  with tr 1 2 show ?thesis by blast
qed

text \<open>
  C9. When a teacher is given and one of the two sub-losses is missing, \<open>train\<close> ends with
  an exception and its trace holds nothing but the switch of the model to training mode:
  no forward pass, no backward pass, no update, no call on the aggregator. The exception is
  the failed assertion of the first iteration, or the division by zero of line 141 when
  the dataloader is empty.
\<close>

theorem kd_config_error:
  assumes "teacher_given a" and "kd_cls_loss a = None \<or> kd_reg_loss a = None"
  shows "train a c m dl =
           ([Model_train], Inl (if dl = [] then ZeroDivisionError else AssertionError))"
proof (cases dl)
  case Nil
  then show ?thesis by (simp add: train_def train_exit_def mean_loss_def)
next
  case (Cons io ios)
  from assms have "forward_and_loss a c io = ([], Inl AssertionError)"
    by (auto simp: forward_and_loss_def split: option.splits)
  then have "train_step a c n 0 io = ([], Inl AssertionError)" for n
    by (rule train_step_fail)
  then show ?thesis using Cons by (simp add: train_def)
qed

theorem kd_config_error_witness:
  "train ex_bad_kd_args ex_config () ex_loader = ([Model_train], Inl AssertionError)"
proof -
  have "teacher_given ex_bad_kd_args"
    and "kd_cls_loss ex_bad_kd_args = None \<or> kd_reg_loss ex_bad_kd_args = None"
    by (simp_all add: ex_bad_kd_args_def)
  from kd_config_error[OF this, of ex_config "()" ex_loader] show ?thesis
    by (simp add: ex_loader_def)
qed

text \<open>
  C10. On an empty dataloader \<open>train\<close> and \<open>val\<close> both end with the division by zero of the
  mean, after nothing but the switch of the model's mode.
\<close>

theorem empty_dataloader_fails:
  "train a c m [] = ([Model_train], Inl ZeroDivisionError)
   \<and> val c is_reg teacher_mode m [] = ([Model_eval], Inl ZeroDivisionError)"
  by (simp add: train_def train_exit_def val_def val_exit_def mean_loss_def)

end
